theory Spec2Isabelle
  imports Main "HOL-Library.Sublist"
begin

section \<open>Data model\<close>

text \<open>
  The program \<^verbatim>\<open>quickstart.go\<close> is a linear sequence of I/O steps. Its effects are
  made explicit: every function takes the world (file contents, pending console input,
  the trace of observable events) and returns the new one; what the operating system,
  the remote services and the libraries decide is read from an environment record.
  A call of \<^verbatim>\<open>log.Fatal\<close>/\<^verbatim>\<open>log.Fatalf\<close> or a failed type assertion ends the run: such
  a result is \<open>Inl\<close> of an \<open>abort\<close> value and is passed up unchanged by every caller.
\<close>

text \<open>\<^verbatim>\<open>oauth2.Token\<close>: the exported fields; \<open>Expiry\<close> is a point in time (seconds).\<close>

record token =
  AccessToken :: string
  TokenType :: string
  RefreshToken :: string
  Expiry :: int

text \<open>\<^verbatim>\<open>oauth2.Config\<close>, as far as the program sees it.\<close>

record oauth_config =
  ClientID :: string
  ClientSecret :: string
  RedirectURL :: string
  Scopes :: "string list"

text \<open>\<^verbatim>\<open>config.Client(ctx, tok)\<close>: the client is determined by the configuration and
  the token pointer it was built from (\<open>None\<close> is the nil pointer). What the library's
  client does with the token when a request is sent (it compares the expiry with the
  clock and may refresh the token) is not modelled: the answer to the request is the
  parameter \<open>Values_Get\<close> of the environment.\<close>

datatype http_client = Client oauth_config "token option"

text \<open>
  A cell of \<^verbatim>\<open>resp.Values\<close> has type \<^verbatim>\<open>interface{}\<close>: a string, or a value of another
  dynamic type. The payload of a non-string cell is never inspected by the program
  (\<open>CNumber\<close> stands for a JSON number).
\<close>

datatype cell = CString string | CNumber int | CBool bool | CNull

datatype error =
    ErrNotExist | ErrPermission | ErrUnknownUser | ErrDecode | ErrEOF
  | ErrExchange | ErrShortWrite

datatype abort = Fatal string | Panic string

datatype event =
    LogPrintf string
  | LogToken token
  | Print string
  | PrintItem cell
  | Scan
  | ExchangeCall oauth_config string
  | ValuesGetCall string string
  | MkdirAll string
  | LogFatal string
  | PanicMsg string

record world =
  files :: "string \<Rightarrow> string option"
  stdin :: "string list"
  trace :: "event list"

text \<open>
  The environment: the answers of the operating system (\<open>user_Current\<close>, \<open>open_ok\<close>,
  \<open>create_ok\<close>, \<open>accepted\<close>: how many bytes of a write the file system takes), of the
  remote services (\<open>Exchange\<close>, \<open>Values_Get\<close>) and of the libraries whose code is not part
  of the program (\<open>ConfigFromJSON\<close>, \<open>AuthCodeURL\<close>, the JSON coding of a token,
  \<open>sheets_New\<close>). \<open>clock\<close> is the wall clock (\<^verbatim>\<open>time.Now\<close>).
\<close>

record env =
  user_Current :: "string option"
  open_ok :: "string \<Rightarrow> bool"
  create_ok :: "string \<Rightarrow> bool"
  accepted :: "string \<Rightarrow> string \<Rightarrow> string \<Rightarrow> nat"
  ConfigFromJSON :: "string \<Rightarrow> string \<Rightarrow> oauth_config option"
  AuthCodeURL :: "oauth_config \<Rightarrow> string \<Rightarrow> string"
  Exchange :: "oauth_config \<Rightarrow> string \<Rightarrow> token option"
  token_Decode :: "string \<Rightarrow> token \<times> error option"
  token_Encode :: "token \<Rightarrow> string"
  sheets_New :: "http_client \<Rightarrow> bool"
  Values_Get :: "http_client \<Rightarrow> string \<Rightarrow> string \<Rightarrow> cell list list option"
  clock :: int

abbreviation LF :: char where "LF \<equiv> CHR 0x0A"
abbreviation CR :: char where "CR \<equiv> CHR 0x0D"
abbreviation DQ :: char where "DQ \<equiv> CHR 0x22"
abbreviation Comma :: char where "Comma \<equiv> CHR 0x2C"

section \<open>Operating system and library calls\<close>

definition emit :: "event \<Rightarrow> world \<Rightarrow> world" where
  "emit e w = w\<lparr>trace := trace w @ [e]\<rparr>"

text \<open>\<^verbatim>\<open>log.Fatalf\<close> and \<^verbatim>\<open>log.Fatal\<close>: print, then \<^verbatim>\<open>os.Exit(1)\<close>; deferred calls do not run.\<close>

definition log_Fatal :: "string \<Rightarrow> world \<Rightarrow> (abort + 'a) \<times> world" where
  "log_Fatal msg w = (Inl (Fatal msg), emit (LogFatal msg) w)"

text \<open>\<^verbatim>\<open>os.Open\<close> followed by reading the file; \<^verbatim>\<open>ioutil.ReadFile\<close> is the same.\<close>

definition os_Open :: "env \<Rightarrow> world \<Rightarrow> string \<Rightarrow> error + string" where
  "os_Open env w name =
     (case files w name of
        None \<Rightarrow> Inl ErrNotExist
      | Some content \<Rightarrow> if open_ok env name then Inr content else Inl ErrPermission)"

text \<open>\<^verbatim>\<open>os.OpenFile(name, O_RDWR|O_CREATE|O_TRUNC, perm)\<close>, which \<^verbatim>\<open>os.Create\<close> is too:
  on success the file exists and is empty; the handle is the path.\<close>

definition os_Create :: "env \<Rightarrow> world \<Rightarrow> string \<Rightarrow> (error + string) \<times> world" where
  "os_Create env w name =
     (if create_ok env name then (Inr name, w\<lparr>files := (files w)(name \<mapsto> [])\<rparr>)
      else (Inl ErrPermission, w))"

text \<open>\<^verbatim>\<open>(*os.File).Write\<close>: the file system takes the first \<open>n\<close> bytes and appends them;
  the call fails when it did not take them all.\<close>

definition file_Write :: "env \<Rightarrow> world \<Rightarrow> string \<Rightarrow> string \<Rightarrow> (nat \<times> error option) \<times> world" where
  "file_Write env w name data =
     (case files w name of
        None \<Rightarrow> ((0, Some ErrNotExist), w)
      | Some cur \<Rightarrow>
          (let n = min (accepted env name cur data) (length data)
           in ((n, if n = length data then None else Some ErrShortWrite),
               w\<lparr>files := (files w)(name \<mapsto> cur @ take n data)\<rparr>)))"

text \<open>\<^verbatim>\<open>filepath.Join\<close> of two clean, non-empty elements, the first without a slash at
  its end (for a home directory \<^verbatim>\<open>/\<close> the library gives a single slash where this gives
  two: another spelling of the same path).\<close>

definition filepath_Join :: "string \<Rightarrow> string \<Rightarrow> string" where
  "filepath_Join a b = a @ ''/'' @ b"

text \<open>\<^verbatim>\<open>url.QueryEscape\<close>: letters, digits and \<^verbatim>\<open>-_.~\<close> stay, a space becomes \<^verbatim>\<open>+\<close>,
  every other byte becomes \<^verbatim>\<open>%XX\<close>.\<close>

definition unreserved :: "char \<Rightarrow> bool" where
  "unreserved c =
     (let n = (of_char c :: nat)
      in (0x61 \<le> n \<and> n \<le> 0x7A) \<or> (0x41 \<le> n \<and> n \<le> 0x5A) \<or> (0x30 \<le> n \<and> n \<le> 0x39)
         \<or> c = CHR ''-'' \<or> c = CHR ''_'' \<or> c = CHR ''.'' \<or> c = CHR ''~'')"

definition upperhex :: "nat \<Rightarrow> char" where
  "upperhex n = ''0123456789ABCDEF'' ! (n mod 16)"

definition escape_byte :: "char \<Rightarrow> string" where
  "escape_byte c =
     (if unreserved c then [c]
      else if c = CHR '' '' then ''+''
      else [CHR ''%'', upperhex ((of_char c :: nat) div 16), upperhex (of_char c)])"

definition url_QueryEscape :: "string \<Rightarrow> string" where
  "url_QueryEscape s = concat (map escape_byte s)"

section \<open>The token cache and the interactive authorisation\<close>

text \<open>\<^verbatim>\<open>tokenCacheFile\<close>: the error of \<^verbatim>\<open>os.MkdirAll\<close> is discarded by the source.\<close>

definition tokenCacheFile :: "env \<Rightarrow> world \<Rightarrow> (error + string) \<times> world" where
  "tokenCacheFile env w =
     (case user_Current env of
        None \<Rightarrow> (Inl ErrUnknownUser, w)
      | Some HomeDir \<Rightarrow>
          (let tokenCacheDir = filepath_Join HomeDir ''.credentials'';
               w1 = emit (MkdirAll tokenCacheDir) w
           in (Inr (filepath_Join tokenCacheDir
                      (url_QueryEscape ''sheets.googleapis.com-go-quickstart.json'')), w1)))"

text \<open>
  \<^verbatim>\<open>tokenFromFile\<close> returns a token pointer and an error. When the file cannot be opened
  the pointer is nil. Otherwise the decoder fills a fresh \<^verbatim>\<open>&oauth2.Token{}\<close> and the
  function returns that pointer together with whatever the decoder returned.
\<close>

definition tokenFromFile :: "env \<Rightarrow> world \<Rightarrow> string \<Rightarrow> (token option \<times> error option) \<times> world" where
  "tokenFromFile env w file =
     (let w1 = emit (LogPrintf ''tokenFromFile() file'') w
      in case os_Open env w1 file of
           Inl err \<Rightarrow> ((None, Some err), w1)
         | Inr content \<Rightarrow>
             (case token_Decode env content of
                (t, err) \<Rightarrow> ((Some t, err), emit (LogToken t) w1)))"

text \<open>\<^verbatim>\<open>getTokenFromWeb\<close>: \<^verbatim>\<open>fmt.Scan\<close> takes the next word of the console input.\<close>

definition getTokenFromWeb :: "env \<Rightarrow> world \<Rightarrow> oauth_config \<Rightarrow> (abort + token) \<times> world" where
  "getTokenFromWeb env w config =
     (let authURL = AuthCodeURL env config ''state-token'';
          w1 = emit (Print (''Go to the following link in your browser then type the authorization code: ''
                            @ [LF] @ authURL @ [LF])) w;
          w2 = emit Scan w1
      in case stdin w2 of
           [] \<Rightarrow> log_Fatal ''Unable to read authorization code'' w2
         | code # rest \<Rightarrow>
             (let w3 = emit (ExchangeCall config code) (w2\<lparr>stdin := rest\<rparr>)
              in case Exchange env config code of
                   None \<Rightarrow> log_Fatal ''Unable to retrieve token from web'' w3
                 | Some tok \<Rightarrow> (Inr tok, w3)))"

text \<open>\<^verbatim>\<open>saveToken\<close>: the result of \<^verbatim>\<open>Encode\<close> (one write of the encoded token) is discarded.\<close>

definition saveToken :: "env \<Rightarrow> world \<Rightarrow> string \<Rightarrow> token \<Rightarrow> (abort + unit) \<times> world" where
  "saveToken env w file tok =
     (let w1 = emit (Print (''Saving credential file to: '' @ file @ [LF])) w
      in case os_Create env w1 file of
           (Inl err, w2) \<Rightarrow> log_Fatal ''Unable to cache oauth token'' w2
         | (Inr f, w2) \<Rightarrow> (Inr (), snd (file_Write env w2 f (token_Encode env tok))))"

definition getClient :: "env \<Rightarrow> world \<Rightarrow> oauth_config \<Rightarrow> (abort + http_client) \<times> world" where
  "getClient env w config =
     (case tokenCacheFile env w of
        (Inl err, w1) \<Rightarrow> log_Fatal ''Unable to get path to cached credential file.'' w1
      | (Inr cacheFile, w1) \<Rightarrow>
          (case tokenFromFile env w1 cacheFile of
             ((tok, None), w2) \<Rightarrow> (Inr (Client config tok), w2)
           | ((tok, Some err), w2) \<Rightarrow>
               (case getTokenFromWeb env w2 config of
                  (Inl a, w3) \<Rightarrow> (Inl a, w3)
                | (Inr tok', w3) \<Rightarrow>
                    (case saveToken env w3 cacheFile tok' of
                       (Inl a, w4) \<Rightarrow> (Inl a, w4)
                     | (Inr u, w4) \<Rightarrow> (Inr (Client config (Some tok')), w4)))))"

section \<open>The buffered CSV writer\<close>

text \<open>
  The program writes its output through \<^verbatim>\<open>csv.NewWriter(file)\<close>. The definitions of
  this section follow the packages \<^verbatim>\<open>bufio\<close> and \<^verbatim>\<open>encoding/csv\<close> of the Go standard
  library, which the program calls. The CSV writer wraps the file in a \<^verbatim>\<open>bufio.Writer\<close>
  of the default size: bytes stay in the buffer until it is full or \<^verbatim>\<open>Flush\<close> is called,
  and the first error of the file is kept in the writer; every later operation returns it.
\<close>

definition defaultBufSize :: nat where
  "defaultBufSize = 4096"

record bufio_Writer =
  wr_file :: string
  wr_buf :: string
  wr_err :: "error option"

definition csv_NewWriter :: "string \<Rightarrow> bufio_Writer" where
  "csv_NewWriter file = \<lparr>wr_file = file, wr_buf = [], wr_err = None\<rparr>"

definition Available :: "bufio_Writer \<Rightarrow> nat" where
  "Available b = defaultBufSize - length (wr_buf b)"

text \<open>\<^verbatim>\<open>(*bufio.Writer).Flush\<close>: on a failed write the bytes not taken stay in the buffer.\<close>

definition bufio_Flush :: "env \<Rightarrow> world \<Rightarrow> bufio_Writer \<Rightarrow> error option \<times> bufio_Writer \<times> world" where
  "bufio_Flush env w b =
     (case wr_err b of
        Some err \<Rightarrow> (Some err, b, w)
      | None \<Rightarrow>
          if wr_buf b = [] then (None, b, w)
          else (case file_Write env w (wr_file b) (wr_buf b) of
                  ((n, Some err), w1) \<Rightarrow>
                     (Some err, b\<lparr>wr_buf := drop n (wr_buf b), wr_err := Some err\<rparr>, w1)
                | ((n, None), w1) \<Rightarrow> (None, b\<lparr>wr_buf := []\<rparr>, w1)))"

text \<open>
  \<^verbatim>\<open>(*bufio.Writer).WriteString\<close>: while the string does not fit, fill the buffer and flush
  it; then copy the rest. \<^verbatim>\<open>WriteByte\<close> and \<^verbatim>\<open>WriteRune\<close> act like it on their bytes.
\<close>

function bufio_WriteString ::
  "env \<Rightarrow> world \<Rightarrow> bufio_Writer \<Rightarrow> string \<Rightarrow> error option \<times> bufio_Writer \<times> world" where
  "bufio_WriteString env w b s =
     (case wr_err b of
        Some err \<Rightarrow> (Some err, b, w)
      | None \<Rightarrow>
          if length s > Available b then
            (case bufio_Flush env w (b\<lparr>wr_buf := wr_buf b @ take (Available b) s\<rparr>) of
               (Some err, b1, w1) \<Rightarrow> (Some err, b1, w1)
             | (None, b1, w1) \<Rightarrow> bufio_WriteString env w1 b1 (drop (Available b) s))
          else (None, b\<lparr>wr_buf := wr_buf b @ s\<rparr>, w))"
  by pat_completeness auto

termination bufio_WriteString
proof (relation "inv_image (less_than <*lex*> less_than)
                   (\<lambda>(env, w, b, s). (length s, length (wr_buf b)))", goal_cases)
  case 1
  show ?case by (intro wf_inv_image wf_lex_prod wf_less_than)
next
  case (2 env w b s r rest b1 w1)
  then have "bufio_Flush env w (b\<lparr>wr_buf := wr_buf b @ take (Available b) s\<rparr>) = (None, b1, w1)"
    by simp
  then have emptied: "wr_buf b1 = []"
    by (auto simp: bufio_Flush_def split: option.splits if_splits prod.splits)
  show ?case
  proof (cases "Available b = 0")
    case True
    with 2 emptied show ?thesis
      by (auto simp: Available_def defaultBufSize_def)
  next
    case False
    with 2 show ?thesis by auto
  qed
qed

text \<open>
  \<^verbatim>\<open>(*csv.Writer).fieldNeedsQuotes\<close> with the writer's default comma: the last test looks at
  the first rune of the field (\<^verbatim>\<open>utf8.DecodeRuneInString\<close>, \<^verbatim>\<open>unicode.IsSpace\<close>).
\<close>

definition cont_byte :: "nat \<Rightarrow> bool" where
  "cont_byte b = (0x80 \<le> b \<and> b \<le> 0xBF)"

definition DecodeRuneInString :: "string \<Rightarrow> nat" where
  "DecodeRuneInString s =
     (case map of_char (take 4 s) of
        [] \<Rightarrow> 0xFFFD
      | b0 # bs \<Rightarrow>
          if b0 < 0x80 then b0
          else if 0xC2 \<le> b0 \<and> b0 \<le> 0xDF then
            (case bs of
               b1 # _ \<Rightarrow> if cont_byte b1 then (b0 - 0xC0) * 64 + (b1 - 0x80) else 0xFFFD
             | _ \<Rightarrow> 0xFFFD)
          else if 0xE0 \<le> b0 \<and> b0 \<le> 0xEF then
            (case bs of
               b1 # b2 # _ \<Rightarrow>
                 if (if b0 = 0xE0 then 0xA0 \<le> b1 \<and> b1 \<le> 0xBF
                     else if b0 = 0xED then 0x80 \<le> b1 \<and> b1 \<le> 0x9F
                     else cont_byte b1) \<and> cont_byte b2
                 then (b0 - 0xE0) * 4096 + (b1 - 0x80) * 64 + (b2 - 0x80) else 0xFFFD
             | _ \<Rightarrow> 0xFFFD)
          else if 0xF0 \<le> b0 \<and> b0 \<le> 0xF4 then
            (case bs of
               b1 # b2 # b3 # _ \<Rightarrow>
                 if (if b0 = 0xF0 then 0x90 \<le> b1 \<and> b1 \<le> 0xBF
                     else if b0 = 0xF4 then 0x80 \<le> b1 \<and> b1 \<le> 0x8F
                     else cont_byte b1) \<and> cont_byte b2 \<and> cont_byte b3
                 then (b0 - 0xF0) * 262144 + (b1 - 0x80) * 4096 + (b2 - 0x80) * 64 + (b3 - 0x80)
                 else 0xFFFD
             | _ \<Rightarrow> 0xFFFD)
          else 0xFFFD)"

definition unicode_IsSpace :: "nat \<Rightarrow> bool" where
  "unicode_IsSpace r =
     ((0x09 \<le> r \<and> r \<le> 0x0D) \<or> r = 0x20 \<or> r = 0x85 \<or> r = 0xA0 \<or> r = 0x1680
      \<or> (0x2000 \<le> r \<and> r \<le> 0x200A) \<or> r = 0x2028 \<or> r = 0x2029 \<or> r = 0x202F
      \<or> r = 0x205F \<or> r = 0x3000)"

definition fieldNeedsQuotes :: "string \<Rightarrow> bool" where
  "fieldNeedsQuotes field =
     (if field = [] then False
      else if field = [CHR 0x5C, CHR ''.''] then True
      else if (\<exists>c \<in> set field. c = LF \<or> c = CR \<or> c = DQ \<or> c = Comma) then True
      else unicode_IsSpace (DecodeRuneInString field))"

text \<open>The writer's \<^verbatim>\<open>UseCRLF\<close> flag is false after \<^verbatim>\<open>NewWriter\<close>; the program never sets it.\<close>

definition UseCRLF :: bool where
  "UseCRLF = False"

text \<open>The body of a quoted field: quotes are doubled, everything else is copied.\<close>

fun quoted_body :: "string \<Rightarrow> string" where
  "quoted_body [] = []"
| "quoted_body (c # cs) =
     (if c = DQ then [DQ, DQ]
      else if c = CR then (if UseCRLF then [] else [CR])
      else if c = LF then (if UseCRLF then [CR, LF] else [LF])
      else [c]) @ quoted_body cs"

definition csv_field :: "string \<Rightarrow> string" where
  "csv_field field =
     (if \<not> fieldNeedsQuotes field then field else [DQ] @ quoted_body field @ [DQ])"

fun csv_fields :: "string list \<Rightarrow> string" where
  "csv_fields [] = []"
| "csv_fields [field] = csv_field field"
| "csv_fields (field # next # rest) = csv_field field @ [Comma] @ csv_fields (next # rest)"

text \<open>The bytes of one record: the fields with a comma before each but the first, then
  the line end.\<close>

definition csv_record :: "string list \<Rightarrow> string" where
  "csv_record record = csv_fields record @ (if UseCRLF then [CR, LF] else [LF])"

text \<open>
  \<^verbatim>\<open>(*csv.Writer).Write\<close> hands the bytes of the record to the buffered writer piece by
  piece and returns the first error; the buffer is flushed at the same bytes as when the
  record is handed over at once.
\<close>

definition csv_Write ::
  "env \<Rightarrow> world \<Rightarrow> bufio_Writer \<Rightarrow> string list \<Rightarrow> error option \<times> bufio_Writer \<times> world" where
  "csv_Write env w b record = bufio_WriteString env w b (csv_record record)"

section \<open>The main function\<close>

definition checkError :: "string \<Rightarrow> error option \<Rightarrow> world \<Rightarrow> (abort + unit) \<times> world" where
  "checkError message err w =
     (case err of None \<Rightarrow> (Inr (), w) | Some e \<Rightarrow> log_Fatal message w)"

text \<open>Lines 134 to 147: the rows are printed, or the notice that there are none.\<close>

definition print_row :: "cell list \<Rightarrow> world \<Rightarrow> world" where
  "print_row row w =
     emit (Print [LF])
       (fold (\<lambda>item. emit (PrintItem item)) row (emit (Print (''Row Type: []interface {}'' @ [LF])) w))"

definition main_print :: "world \<Rightarrow> cell list list \<Rightarrow> world" where
  "main_print w values =
     (if length values > 0
      then fold print_row values (emit (Print (''Name, Major:'' @ [LF])) w)
      else emit (Print ''No data found.'') w)"

text \<open>Lines 157 to 160: \<^verbatim>\<open>item.(string)\<close> panics at the first cell that is not a string.\<close>

fun row_strings :: "cell list \<Rightarrow> string list \<Rightarrow> string list option" where
  "row_strings [] cur = Some cur"
| "row_strings (CString s # items) cur = row_strings items (cur @ [s])"
| "row_strings (item # items) cur = None"

text \<open>Lines 156 to 163: the loop over the rows.\<close>

fun write_rows ::
  "env \<Rightarrow> world \<Rightarrow> bufio_Writer \<Rightarrow> cell list list \<Rightarrow> (abort + unit) \<times> bufio_Writer \<times> world" where
  "write_rows env w writer [] = (Inr (), writer, w)"
| "write_rows env w writer (value # rest) =
     (case row_strings value [] of
        None \<Rightarrow> (Inl (Panic ''interface conversion: interface {} is not string''), writer, w)
      | Some cur \<Rightarrow>
          (case csv_Write env w writer cur of
             (Some err, writer1, w1) \<Rightarrow>
                (fst (checkError ''Cannot write to file'' (Some err) w1), writer1,
                 snd (checkError ''Cannot write to file'' (Some err) w1))
           | (None, writer1, w1) \<Rightarrow> write_rows env w1 writer1 rest))"

text \<open>
  Lines 149 to 163. The deferred \<^verbatim>\<open>writer.Flush()\<close> and \<^verbatim>\<open>file.Close()\<close> run when \<^verbatim>\<open>main\<close>
  returns and when it panics, in that order, and not after \<^verbatim>\<open>log.Fatal\<close>. The result of
  the flush is not looked at.
\<close>

definition main_csv :: "env \<Rightarrow> world \<Rightarrow> cell list list \<Rightarrow> (abort + unit) \<times> world" where
  "main_csv env w values =
     (case os_Create env w ''gsheet_result.csv'' of
        (Inl err, w1) \<Rightarrow> checkError ''Cannot create file'' (Some err) w1
      | (Inr file, w1) \<Rightarrow>
          (case write_rows env w1 (csv_NewWriter file) values of
             (Inl (Fatal m), writer, w2) \<Rightarrow> (Inl (Fatal m), w2)
           | (Inl (Panic m), writer, w2) \<Rightarrow>
               (Inl (Panic m), emit (PanicMsg m) (snd (snd (bufio_Flush env w2 writer))))
           | (Inr u, writer, w2) \<Rightarrow> (Inr (), snd (snd (bufio_Flush env w2 writer)))))"

definition spreadsheetId :: string where
  "spreadsheetId = ''1zFjra05ZGfaVgKNorPdvAU-bh0QDkOn-CVoXjWtiw2w''"

definition readRange :: string where
  "readRange = ''A3:F6''"

definition main :: "env \<Rightarrow> world \<Rightarrow> (abort + unit) \<times> world" where
  "main env w =
     (case os_Open env w ''client_secret.json'' of
        Inl err \<Rightarrow> log_Fatal ''Unable to read client secret file'' w
      | Inr b \<Rightarrow>
          (case ConfigFromJSON env b ''https://www.googleapis.com/auth/spreadsheets.readonly'' of
             None \<Rightarrow> log_Fatal ''Unable to parse client secret file to config'' w
           | Some config \<Rightarrow>
               (case getClient env w config of
                  (Inl a, w1) \<Rightarrow> (Inl a, w1)
                | (Inr client, w1) \<Rightarrow>
                    if \<not> sheets_New env client
                    then log_Fatal ''Unable to retrieve Sheets Client'' w1
                    else
                      (let w2 = emit (ValuesGetCall spreadsheetId readRange) w1
                       in case Values_Get env client spreadsheetId readRange of
                            None \<Rightarrow> log_Fatal ''Unable to retrieve data from sheet.'' w2
                          | Some values \<Rightarrow>
                              main_csv env (main_print (emit (LogPrintf ''resp'') w2) values)
                                values))))"

section \<open>Notions used to state the properties\<close>

abbreviation out_csv :: string where
  "out_csv \<equiv> ''gsheet_result.csv''"

text \<open>Two worlds that differ at most in the content of the file \<open>p\<close>.\<close>

definition same_but :: "string \<Rightarrow> world \<Rightarrow> world \<Rightarrow> bool" where
  "same_but p w w' \<longleftrightarrow>
     trace w' = trace w \<and> stdin w' = stdin w \<and> (\<forall>q. q \<noteq> p \<longrightarrow> files w' q = files w q)"

text \<open>A file system that takes every byte of every write.\<close>

definition takes_all :: "env \<Rightarrow> bool" where
  "takes_all env \<longleftrightarrow> (\<forall>p cur d. length d \<le> accepted env p cur d)"

text \<open>
  The bytes the loop of lines 156 to 163 hands to the writer when no write fails: the
  records of the rows in order, up to the first row that has a cell which is not a string.
\<close>

fun csv_output :: "cell list list \<Rightarrow> string" where
  "csv_output [] = []"
| "csv_output (row # rows) =
     (case row_strings row [] of None \<Rightarrow> [] | Some cur \<Rightarrow> csv_record cur @ csv_output rows)"

definition string_rows :: "cell list list \<Rightarrow> bool" where
  "string_rows rows \<longleftrightarrow> (\<forall>row \<in> set rows. row_strings row [] \<noteq> None)"

text \<open>
  A call of \<^verbatim>\<open>writer.Write\<close> in the loop of lines 156 to 163 returns an error: the loop is
  followed row by row, from the given world and writer, up to the first row that has a
  cell which is not a string.
\<close>

fun write_fails :: "env \<Rightarrow> world \<Rightarrow> bufio_Writer \<Rightarrow> cell list list \<Rightarrow> bool" where
  "write_fails env w writer [] = False"
| "write_fails env w writer (row # rows) =
     (case row_strings row [] of
        None \<Rightarrow> False
      | Some cur \<Rightarrow>
          (case csv_Write env w writer cur of
             (Some err, writer1, w1) \<Rightarrow> True
           | (None, writer1, w1) \<Rightarrow> write_fails env w1 writer1 rows))"

text \<open>The path of the token cache for a home directory, as \<open>tokenCacheFile\<close> builds it.\<close>

definition cache_file :: "string \<Rightarrow> string" where
  "cache_file home =
     filepath_Join (filepath_Join home ''.credentials'')
       (url_QueryEscape ''sheets.googleapis.com-go-quickstart.json'')"

text \<open>The events of the interactive authorisation, and those that reach the network.\<close>

fun interactive :: "event \<Rightarrow> bool" where
  "interactive Scan = True"
| "interactive (ExchangeCall config code) = True"
| "interactive e = False"

fun network :: "event \<Rightarrow> bool" where
  "network (ExchangeCall config code) = True"
| "network (ValuesGetCall sheet cells) = True"
| "network e = False"

text \<open>
  Modelled from the spec: reading the output file back as CSV. The program has no reader;
  this one accepts the dialect the writer produces: records end with a line feed, fields
  are separated by commas, a field in double quotes may hold commas, line breaks and
  doubled quotes, and a line without any byte is a record of one empty field. The result
  is \<open>None\<close> for a file that is not well formed.
\<close>

datatype pstate = FieldStart | InField | InQuoted | QuoteSeen

fun csv_parse ::
  "pstate \<Rightarrow> string \<Rightarrow> string list \<Rightarrow> string list list \<Rightarrow> string \<Rightarrow> string list list option" where
  "csv_parse st cur flds recs [] =
     (case st of
        FieldStart \<Rightarrow> if flds = [] then Some recs else Some (recs @ [flds @ [[]]])
      | InField \<Rightarrow> Some (recs @ [flds @ [cur]])
      | InQuoted \<Rightarrow> None
      | QuoteSeen \<Rightarrow> Some (recs @ [flds @ [cur]]))"
| "csv_parse st cur flds recs (c # cs) =
     (case st of
        FieldStart \<Rightarrow>
          if c = DQ then csv_parse InQuoted [] flds recs cs
          else if c = Comma then csv_parse FieldStart [] (flds @ [[]]) recs cs
          else if c = LF then csv_parse FieldStart [] [] (recs @ [flds @ [[]]]) cs
          else csv_parse InField [c] flds recs cs
      | InField \<Rightarrow>
          if c = DQ then None
          else if c = Comma then csv_parse FieldStart [] (flds @ [cur]) recs cs
          else if c = LF then csv_parse FieldStart [] [] (recs @ [flds @ [cur]]) cs
          else csv_parse InField (cur @ [c]) flds recs cs
      | InQuoted \<Rightarrow>
          if c = DQ then csv_parse QuoteSeen cur flds recs cs
          else csv_parse InQuoted (cur @ [c]) flds recs cs
      | QuoteSeen \<Rightarrow>
          if c = DQ then csv_parse InQuoted (cur @ [DQ]) flds recs cs
          else if c = Comma then csv_parse FieldStart [] (flds @ [cur]) recs cs
          else if c = LF then csv_parse FieldStart [] [] (recs @ [flds @ [cur]]) cs
          else None)"

definition csv_read :: "string \<Rightarrow> string list list option" where
  "csv_read s = csv_parse FieldStart [] [] [] s"

section \<open>A sample environment\<close>

text \<open>
  A concrete environment and world on which the functions can be evaluated: a user with
  the home directory \<^verbatim>\<open>/home/u\<close>, a file system that allows everything, a token coding
  that writes the access token on a line, and a sheet holding the given rows.
\<close>

definition cached_token :: token where
  "cached_token =
     \<lparr>AccessToken = ''ya29.cached'', TokenType = ''Bearer'', RefreshToken = ''1/refresh'',
      Expiry = 1000\<rparr>"

definition web_token :: token where
  "web_token =
     \<lparr>AccessToken = ''ya29.web'', TokenType = ''Bearer'', RefreshToken = ''1/fresh'',
      Expiry = 5000\<rparr>"

definition zero_token :: token where
  "zero_token = \<lparr>AccessToken = [], TokenType = [], RefreshToken = [], Expiry = 0\<rparr>"

definition sample_config :: oauth_config where
  "sample_config =
     \<lparr>ClientID = ''id'', ClientSecret = ''secret'', RedirectURL = ''urn:ietf:wg:oauth:2.0:oob'',
      Scopes = [''https://www.googleapis.com/auth/spreadsheets.readonly'']\<rparr>"

definition sample_Encode :: "token \<Rightarrow> string" where
  "sample_Encode t = AccessToken t @ [LF]"

definition sample_Decode :: "string \<Rightarrow> token \<times> error option" where
  "sample_Decode content =
     (if content = ''ya29.cached'' @ [LF] then (cached_token, None)
      else if content = ''ya29.web'' @ [LF] then (web_token, None)
      else (zero_token, Some ErrDecode))"

definition sample_env :: "cell list list \<Rightarrow> env" where
  "sample_env rows =
     \<lparr>user_Current = Some ''/home/u'',
      open_ok = (\<lambda>name. True),
      create_ok = (\<lambda>name. True),
      accepted = (\<lambda>name cur data. length data),
      ConfigFromJSON = (\<lambda>b scope. if b = ''{}'' then Some sample_config else None),
      AuthCodeURL = (\<lambda>config state. ''https://accounts.example/auth''),
      Exchange = (\<lambda>config code. if code = ''4/code'' then Some web_token else None),
      token_Decode = sample_Decode,
      token_Encode = sample_Encode,
      sheets_New = (\<lambda>client. True),
      Values_Get = (\<lambda>client sheet cells. Some rows),
      clock = 2000\<rparr>"

definition sample_cache :: string where
  "sample_cache = ''/home/u/.credentials/sheets.googleapis.com-go-quickstart.json''"

text \<open>A world with the client secret and a cached token, and one without the cache.\<close>

definition cached_world :: world where
  "cached_world =
     \<lparr>files = [''client_secret.json'' \<mapsto> ''{}'', sample_cache \<mapsto> ''ya29.cached'' @ [LF]],
      stdin = [], trace = []\<rparr>"

definition fresh_world :: world where
  "fresh_world =
     \<lparr>files = [''client_secret.json'' \<mapsto> ''{}''], stdin = [''4/code''], trace = []\<rparr>"

lemma same_but_refl: "same_but p w w"
  by (simp add: same_but_def)

lemma same_but_trans: "same_but p w w1 \<Longrightarrow> same_but p w1 w2 \<Longrightarrow> same_but p w w2"
  by (simp add: same_but_def)

lemma file_Write_shape:
  assumes "files w p = Some fc"
  shows "\<exists>n. n \<le> length data \<and> fst (fst (file_Write env w p data)) = n
           \<and> (snd (fst (file_Write env w p data)) = None \<longleftrightarrow> n = length data)
           \<and> files (snd (file_Write env w p data)) p = Some (fc @ take n data)
           \<and> same_but p w (snd (file_Write env w p data))"
  using assms by (auto simp: file_Write_def Let_def same_but_def)

lemma bufio_Flush_shape:
  assumes "files w (wr_file b) = Some fc"
  shows "\<exists>fc'. files (snd (snd (bufio_Flush env w b))) (wr_file b) = Some fc'
           \<and> prefix fc fc'
           \<and> (wr_err b = None \<longrightarrow> fc' @ wr_buf (fst (snd (bufio_Flush env w b))) = fc @ wr_buf b)
           \<and> (fst (bufio_Flush env w b) = None \<longrightarrow> wr_err b = None \<and> wr_buf (fst (snd (bufio_Flush env w b))) = [] \<and> wr_err (fst (snd (bufio_Flush env w b))) = None)
           \<and> wr_file (fst (snd (bufio_Flush env w b))) = wr_file b
           \<and> same_but (wr_file b) w (snd (snd (bufio_Flush env w b)))"
proof (cases "wr_err b = None \<and> wr_buf b \<noteq> []")
  case False
  then show ?thesis using assms
    by (auto simp: bufio_Flush_def same_but_refl split: option.splits)
next
  case True
  obtain n e w1 where fw: "file_Write env w (wr_file b) (wr_buf b) = ((n, e), w1)"
    by (metis surj_pair)
  from file_Write_shape[OF assms, of "wr_buf b" env] fw
  have n: "n \<le> length (wr_buf b)" and e: "e = None \<longleftrightarrow> n = length (wr_buf b)"
    and f: "files w1 (wr_file b) = Some (fc @ take n (wr_buf b))" and s: "same_but (wr_file b) w w1"
    by auto
  show ?thesis
  proof (cases e)
    case None
    with True fw n e f s show ?thesis
      by (simp add: bufio_Flush_def)
  next
    case (Some err)
    with True fw n e f s show ?thesis
      by (simp add: bufio_Flush_def)
  qed
qed

lemma bufio_Flush_result:
  assumes "files w (wr_file b) = Some fc" and "bufio_Flush env w b = (e, b', w')"
  shows "\<exists>fc'. files w' (wr_file b) = Some fc' \<and> prefix fc fc'
           \<and> (wr_err b = None \<longrightarrow> fc' @ wr_buf b' = fc @ wr_buf b)
           \<and> (e = None \<longrightarrow> wr_err b = None \<and> wr_buf b' = [] \<and> wr_err b' = None)
           \<and> wr_file b' = wr_file b \<and> same_but (wr_file b) w w'"
  using bufio_Flush_shape[OF assms(1), of env] assms(2) by simp

lemma bufio_WriteString_result:
  "files w (wr_file b) = Some fc \<Longrightarrow> bufio_WriteString env w b s = (e, b', w') \<Longrightarrow>
   \<exists>fc'. files w' (wr_file b) = Some fc' \<and> prefix fc fc'
         \<and> prefix (fc' @ wr_buf b') (fc @ wr_buf b @ s)
         \<and> (e = None \<longrightarrow> wr_err b = None \<and> wr_err b' = None \<and> fc' @ wr_buf b' = fc @ wr_buf b @ s)
         \<and> wr_file b' = wr_file b \<and> same_but (wr_file b) w w'"
proof (induction env w b s arbitrary: fc e b' w' rule: bufio_WriteString.induct)
  case (1 env w b s)
  let ?a = "Available b"
  let ?b0 = "b\<lparr>wr_buf := wr_buf b @ take ?a s\<rparr>"
  show ?case
  proof (cases "wr_err b")
    case (Some err)
    with "1.prems" show ?thesis
      by (auto simp: same_but_refl)
  next
    case None
    show ?thesis
    proof (cases "length s > ?a")
      case False
      with None "1.prems" show ?thesis
        by (auto simp: same_but_refl)
    next
      case True
      obtain e1 b1 w1 where fl: "bufio_Flush env w ?b0 = (e1, b1, w1)"
        by (metis surj_pair)
      from "1.prems"(1) have f0: "files w (wr_file ?b0) = Some fc" by simp
      from bufio_Flush_result[OF f0 fl] None
      obtain fc1 where fc1: "files w1 (wr_file b) = Some fc1" "prefix fc fc1"
          "fc1 @ wr_buf b1 = fc @ wr_buf b @ take ?a s"
          "e1 = None \<longrightarrow> wr_buf b1 = [] \<and> wr_err b1 = None"
          "wr_file b1 = wr_file b" "same_but (wr_file b) w w1"
        by auto
      have split: "fc @ wr_buf b @ s = (fc @ wr_buf b @ take ?a s) @ drop ?a s"
        by simp
      show ?thesis
      proof (cases e1)
        case (Some err)
        with None True fl "1.prems"(2) have r: "e = Some err" "b' = b1" "w' = w1"
          by auto
        have "prefix (fc1 @ wr_buf b1) (fc @ wr_buf b @ s)"
          by (simp add: fc1(3) take_is_prefix)
        with r fc1 show ?thesis by simp
      next
        case e1: None
        with None True fl "1.prems"(2)
        have rec: "bufio_WriteString env w1 b1 (drop ?a s) = (e, b', w')"
          by simp
        from fc1(1,5) have f1: "files w1 (wr_file b1) = Some fc1" by simp
        from "1.IH"[OF None True _ _ _ f1 rec, of e1 "(b1, w1)"] fl e1
        obtain fc' where fc': "files w' (wr_file b1) = Some fc'" "prefix fc1 fc'"
            "prefix (fc' @ wr_buf b') (fc1 @ wr_buf b1 @ drop ?a s)"
            "e = None \<longrightarrow> wr_err b1 = None \<and> wr_err b' = None \<and> fc' @ wr_buf b' = fc1 @ wr_buf b1 @ drop ?a s"
            "wr_file b' = wr_file b1" "same_but (wr_file b1) w1 w'"
          by auto
        have eq: "fc1 @ wr_buf b1 @ drop ?a s = fc @ wr_buf b @ s"
          using fc1(3) split by (metis append.assoc)
        from fc' fc1 eq None show ?thesis
          by (auto intro: same_but_trans prefix_order.trans)
      qed
    qed
  qed
qed

lemma file_Write_takes_all:
  "takes_all env \<Longrightarrow> files w p = Some fc \<Longrightarrow>
   file_Write env w p data = ((length data, None), w\<lparr>files := (files w)(p \<mapsto> fc @ data)\<rparr>)"
  by (simp add: file_Write_def takes_all_def min_absorb2)

lemma bufio_Flush_takes_all:
  "takes_all env \<Longrightarrow> files w (wr_file b) = Some fc \<Longrightarrow> wr_err b = None \<Longrightarrow>
   fst (bufio_Flush env w b) = None"
  by (simp add: bufio_Flush_def file_Write_takes_all)

lemma bufio_WriteString_takes_all:
  "takes_all env \<Longrightarrow> files w (wr_file b) = Some fc \<Longrightarrow> wr_err b = None \<Longrightarrow>
   fst (bufio_WriteString env w b s) = None"
proof (induction env w b s arbitrary: fc rule: bufio_WriteString.induct)
  case (1 env w b s)
  let ?a = "Available b"
  let ?b0 = "b\<lparr>wr_buf := wr_buf b @ take ?a s\<rparr>"
  show ?case
  proof (cases "length s > ?a")
    case False
    with "1.prems" show ?thesis by simp
  next
    case True
    obtain e1 b1 w1 where fl: "bufio_Flush env w ?b0 = (e1, b1, w1)"
      by (metis surj_pair)
    from "1.prems" have f0: "files w (wr_file ?b0) = Some fc" and n0: "wr_err ?b0 = None"
      by simp_all
    from bufio_Flush_takes_all[OF "1.prems"(1) f0 n0] fl have e1: "e1 = None" by simp
    from bufio_Flush_result[OF f0 fl] e1 n0
    obtain fc1 where fc1: "files w1 (wr_file b1) = Some fc1" "wr_err b1 = None"
      by auto
    from "1.IH"[OF "1.prems"(3) True _ _ _ "1.prems"(1) fc1, of e1 "(b1, w1)"] fl e1
    have "fst (bufio_WriteString env w1 b1 (drop ?a s)) = None" by simp
    with True "1.prems"(3) fl e1 show ?thesis by simp
  qed
qed

lemma row_strings_CString: "row_strings (map CString ss) cur = Some (cur @ ss)"
  by (induction ss arbitrary: cur) simp_all

lemma row_strings_None:
  "row_strings row cur = None \<longleftrightarrow> (\<exists>c \<in> set row. \<forall>s. c \<noteq> CString s)"
  by (induction row cur rule: row_strings.induct) auto

lemma write_rows_result:
  "files w (wr_file b) = Some fc \<Longrightarrow> wr_err b = None \<Longrightarrow> write_rows env w b rows = (r, b', w') \<Longrightarrow>
   \<exists>fc'. files w' (wr_file b) = Some fc' \<and> wr_file b' = wr_file b
         \<and> (\<forall>q. q \<noteq> wr_file b \<longrightarrow> files w' q = files w q) \<and> stdin w' = stdin w
         \<and> prefix fc' (fc @ wr_buf b @ csv_output rows)
         \<and> (\<forall>m. r = Inl (Fatal m) \<longrightarrow>
               m = ''Cannot write to file'' \<and> trace w' = trace w @ [LogFatal m])
         \<and> ((\<forall>m. r \<noteq> Inl (Fatal m)) \<longrightarrow>
               wr_err b' = None \<and> fc' @ wr_buf b' = fc @ wr_buf b @ csv_output rows
               \<and> trace w' = trace w \<and> (string_rows rows \<longleftrightarrow> r = Inr ()))"
proof (induction rows arbitrary: w b fc)
  case Nil
  then show ?case by (auto simp: string_rows_def)
next
  case (Cons row rows)
  show ?case
  proof (cases "row_strings row []")
    case None
    with Cons.prems show ?thesis
      by (auto simp: string_rows_def)
  next
    case (Some cur)
    obtain e b1 w1 where ws: "bufio_WriteString env w b (csv_record cur) = (e, b1, w1)"
      by (metis surj_pair)
    from bufio_WriteString_result[OF Cons.prems(1) ws]
    obtain fc1 where fc1: "files w1 (wr_file b) = Some fc1" "prefix fc fc1"
        "prefix (fc1 @ wr_buf b1) (fc @ wr_buf b @ csv_record cur)"
        "e = None \<longrightarrow> wr_err b1 = None \<and> fc1 @ wr_buf b1 = fc @ wr_buf b @ csv_record cur"
        "wr_file b1 = wr_file b" "same_but (wr_file b) w w1"
      by auto
    show ?thesis
    proof (cases e)
      case (Some err)
      with \<open>row_strings row [] = Some cur\<close> ws Cons.prems(3)
      have r: "r = Inl (Fatal ''Cannot write to file'')" "b' = b1"
          "w' = emit (LogFatal ''Cannot write to file'') w1"
        by (auto simp: csv_Write_def checkError_def log_Fatal_def)
      from fc1(3) have "prefix fc1 (fc @ wr_buf b @ csv_record cur)"
        using append_prefixD by blast
      then have "prefix fc1 (fc @ wr_buf b @ csv_record cur @ csv_output rows)"
        by (metis append.assoc prefix_prefix)
      with r fc1 \<open>row_strings row [] = Some cur\<close> show ?thesis
        by (auto simp: emit_def same_but_def)
    next
      case None
      with \<open>row_strings row [] = Some cur\<close> ws Cons.prems(3)
      have rec: "write_rows env w1 b1 rows = (r, b', w')"
        by (simp add: csv_Write_def)
      from fc1 None have f1: "files w1 (wr_file b1) = Some fc1" and e1: "wr_err b1 = None"
        and eq: "fc1 @ wr_buf b1 = fc @ wr_buf b @ csv_record cur"
        by simp_all
      have eq': "fc1 @ wr_buf b1 @ csv_output rows = fc @ wr_buf b @ csv_output (row # rows)"
        using eq \<open>row_strings row [] = Some cur\<close> by (metis append.assoc csv_output.simps(2) option.simps(5))
      have sr: "string_rows (row # rows) = string_rows rows"
        using \<open>row_strings row [] = Some cur\<close> by (simp add: string_rows_def)
      from Cons.IH[OF f1 e1 rec] fc1 show ?thesis
        unfolding eq' sr by (auto simp: same_but_def)
    qed
  qed
qed

lemma write_rows_takes_all:
  "takes_all env \<Longrightarrow> files w (wr_file b) = Some fc \<Longrightarrow> wr_err b = None \<Longrightarrow>
   fst (write_rows env w b rows) \<noteq> Inl (Fatal m)"
proof (induction rows arbitrary: w b fc)
  case Nil
  then show ?case by simp
next
  case (Cons row rows)
  show ?case
  proof (cases "row_strings row []")
    case None
    then show ?thesis by simp
  next
    case (Some cur)
    obtain e b1 w1 where ws: "bufio_WriteString env w b (csv_record cur) = (e, b1, w1)"
      by (metis surj_pair)
    from bufio_WriteString_takes_all[OF Cons.prems, of "csv_record cur"] ws
    have e: "e = None" by simp
    from bufio_WriteString_result[OF Cons.prems(2) ws] e
    obtain fc1 where "files w1 (wr_file b1) = Some fc1" "wr_err b1 = None"
      by auto
    from Cons.IH[OF Cons.prems(1) this] Some ws e show ?thesis
      by (simp add: csv_Write_def)
  qed
qed

lemma main_csv_create_fails:
  "\<not> create_ok env out_csv \<Longrightarrow>
   main_csv env w rows =
     (Inl (Fatal ''Cannot create file''), emit (LogFatal ''Cannot create file'') w)"
  by (simp add: main_csv_def os_Create_def checkError_def log_Fatal_def)

lemma main_csv_created:
  assumes "create_ok env out_csv" and "main_csv env w rows = (r, w')"
  shows "\<exists>c. files w' out_csv = Some c \<and> prefix c (csv_output rows)
           \<and> (\<forall>q. q \<noteq> out_csv \<longrightarrow> files w' q = files w q) \<and> stdin w' = stdin w
           \<and> (\<forall>m. r = Inl (Fatal m) \<longrightarrow>
                 m = ''Cannot write to file'' \<and> trace w' = trace w @ [LogFatal m])
           \<and> (\<forall>m. r = Inl (Panic m) \<longrightarrow>
                 \<not> string_rows rows \<and> trace w' = trace w @ [PanicMsg m])
           \<and> (r = Inr () \<longrightarrow> string_rows rows \<and> trace w' = trace w)
           \<and> (takes_all env \<longrightarrow> c = csv_output rows \<and> (\<forall>m. r \<noteq> Inl (Fatal m)))"
proof -
  let ?w1 = "w\<lparr>files := (files w)(out_csv \<mapsto> [])\<rparr>"
  let ?b0 = "csv_NewWriter out_csv"
  obtain r0 b2 w2 where wr: "write_rows env ?w1 ?b0 rows = (r0, b2, w2)"
    by (metis surj_pair)
  have f1: "files ?w1 (wr_file ?b0) = Some []" and e0: "wr_err ?b0 = None"
    by (simp_all add: csv_NewWriter_def)
  have b0: "wr_file ?b0 = out_csv" "wr_buf ?b0 = []"
    by (simp_all add: csv_NewWriter_def)
  from write_rows_result[OF f1 e0 wr]
  obtain fc2 where fc2: "files w2 out_csv = Some fc2" "wr_file b2 = out_csv"
      "\<forall>q. q \<noteq> out_csv \<longrightarrow> files w2 q = files w q" "stdin w2 = stdin w"
      "prefix fc2 (csv_output rows)"
      "\<forall>m. r0 = Inl (Fatal m) \<longrightarrow>
               m = ''Cannot write to file'' \<and> trace w2 = trace w @ [LogFatal m]"
      "(\<forall>m. r0 \<noteq> Inl (Fatal m)) \<longrightarrow>
               wr_err b2 = None \<and> fc2 @ wr_buf b2 = csv_output rows
               \<and> trace w2 = trace w \<and> (string_rows rows \<longleftrightarrow> r0 = Inr ())"
    unfolding b0 by auto
  from write_rows_takes_all[OF _ f1 e0, where env=env and rows=rows] wr
  have nofatal: "takes_all env \<Longrightarrow> r0 \<noteq> Inl (Fatal m)" for m
    by auto
  obtain e3 b3 w3 where fl: "bufio_Flush env w2 b2 = (e3, b3, w3)"
    by (metis surj_pair)
  from fc2(1,2) have f2: "files w2 (wr_file b2) = Some fc2" by simp
  from bufio_Flush_result[OF f2 fl] fc2(2)
  obtain fc3 where fc3: "files w3 out_csv = Some fc3" "prefix fc2 fc3"
      "wr_err b2 = None \<longrightarrow> fc3 @ wr_buf b3 = fc2 @ wr_buf b2"
      "e3 = None \<longrightarrow> wr_buf b3 = []" "same_but out_csv w2 w3"
    by auto
  from bufio_Flush_takes_all[OF _ f2, where env=env] fl
  have e3: "takes_all env \<Longrightarrow> wr_err b2 = None \<Longrightarrow> e3 = None"
    by simp
  show ?thesis
  proof (cases "\<exists>m. r0 = Inl (Fatal m)")
    case True
    then obtain m where m: "r0 = Inl (Fatal m)" by blast
    with assms wr have r: "r = Inl (Fatal m)" "w' = w2"
      by (auto simp: main_csv_def os_Create_def)
    with m fc2 nofatal show ?thesis by auto
  next
    case False
    with fc2(7) have g: "wr_err b2 = None" "fc2 @ wr_buf b2 = csv_output rows"
        "trace w2 = trace w" "string_rows rows \<longleftrightarrow> r0 = Inr ()"
      by auto
    from g fc3(3) have eq: "fc3 @ wr_buf b3 = csv_output rows" by simp
    then have p: "prefix fc3 (csv_output rows)" by (metis prefixI)
    from g e3 fc3(4) eq have t: "takes_all env \<Longrightarrow> fc3 = csv_output rows"
      by auto
    show ?thesis
    proof (cases r0)
      case (Inr u)
      with assms wr fl have r: "r = Inr ()" "w' = w3"
        by (auto simp: main_csv_def os_Create_def)
      with Inr g p t fc2 fc3 show ?thesis
        by (auto simp: same_but_def)
    next
      case (Inl a)
      with False obtain m where a: "a = Panic m" by (cases a) auto
      with Inl assms wr fl have r: "r = Inl (Panic m)" "w' = emit (PanicMsg m) w3"
        by (auto simp: main_csv_def os_Create_def)
      with Inl a g p t fc2 fc3 show ?thesis
        by (auto simp: same_but_def emit_def)
    qed
  qed
qed


lemma csv_parse_plain:
  "\<forall>c \<in> set f. c \<noteq> DQ \<and> c \<noteq> Comma \<and> c \<noteq> LF \<Longrightarrow>
   csv_parse InField cur flds recs (f @ rest) = csv_parse InField (cur @ f) flds recs rest"
  by (induction f arbitrary: cur) simp_all

lemma csv_parse_quoted:
  "csv_parse InQuoted cur flds recs (quoted_body f @ DQ # rest)
     = csv_parse QuoteSeen (cur @ f) flds recs rest"
  by (induction f arbitrary: cur) (simp_all add: UseCRLF_def)

lemma unquoted_plain:
  "\<not> fieldNeedsQuotes f \<Longrightarrow> \<forall>c \<in> set f. c \<noteq> DQ \<and> c \<noteq> Comma \<and> c \<noteq> LF"
  by (auto simp: fieldNeedsQuotes_def split: if_splits)

lemma csv_parse_field:
  "csv_parse FieldStart [] flds recs (csv_field f @ Comma # rest)
     = csv_parse FieldStart [] (flds @ [f]) recs rest"
  "csv_parse FieldStart [] flds recs (csv_field f @ LF # rest)
     = csv_parse FieldStart [] [] (recs @ [flds @ [f]]) rest"
proof -
  show "csv_parse FieldStart [] flds recs (csv_field f @ Comma # rest)
     = csv_parse FieldStart [] (flds @ [f]) recs rest"
  proof (cases "fieldNeedsQuotes f")
    case True
    then show ?thesis
      using csv_parse_quoted[of "[]" flds recs f "Comma # rest"]
      by (simp add: csv_field_def)
  next
    case False
    show ?thesis
    proof (cases f)
      case Nil
      with False show ?thesis by (simp add: csv_field_def)
    next
      case (Cons c cs)
      from unquoted_plain[OF False] Cons
      have c: "c \<noteq> DQ" "c \<noteq> Comma" "c \<noteq> LF"
        and cs: "\<forall>c \<in> set cs. c \<noteq> DQ \<and> c \<noteq> Comma \<and> c \<noteq> LF"
        by auto
      from False Cons c csv_parse_plain[OF cs, of "[c]" flds recs "Comma # rest"]
      show ?thesis by (simp add: csv_field_def)
    qed
  qed
  show "csv_parse FieldStart [] flds recs (csv_field f @ LF # rest)
     = csv_parse FieldStart [] [] (recs @ [flds @ [f]]) rest"
  proof (cases "fieldNeedsQuotes f")
    case True
    then show ?thesis
      using csv_parse_quoted[of "[]" flds recs f "LF # rest"]
      by (simp add: csv_field_def)
  next
    case False
    show ?thesis
    proof (cases f)
      case Nil
      with False show ?thesis by (simp add: csv_field_def)
    next
      case (Cons c cs)
      from unquoted_plain[OF False] Cons
      have c: "c \<noteq> DQ" "c \<noteq> Comma" "c \<noteq> LF"
        and cs: "\<forall>c \<in> set cs. c \<noteq> DQ \<and> c \<noteq> Comma \<and> c \<noteq> LF"
        by auto
      from False Cons c csv_parse_plain[OF cs, of "[c]" flds recs "LF # rest"]
      show ?thesis by (simp add: csv_field_def)
    qed
  qed
qed

lemma csv_parse_fields:
  "csv_parse FieldStart [] flds recs (csv_fields (f # fs) @ LF # rest)
     = csv_parse FieldStart [] [] (recs @ [flds @ f # fs]) rest"
proof (induction fs arbitrary: f flds)
  case Nil
  show ?case by (simp add: csv_parse_field(2))
next
  case (Cons g fs)
  show ?case
    using Cons.IH[of "flds @ [f]" g] by (simp add: csv_parse_field(1))
qed

lemma csv_parse_records:
  "\<forall>r \<in> set rows. r \<noteq> [] \<Longrightarrow>
   csv_parse FieldStart [] [] recs (concat (map csv_record rows)) = Some (recs @ rows)"
proof (induction rows arbitrary: recs)
  case Nil
  show ?case by simp
next
  case (Cons r rows)
  then obtain f fs where r: "r = f # fs" by (cases r) auto
  from Cons.prems have "\<forall>r \<in> set rows. r \<noteq> []" by simp
  from Cons.IH[OF this, of "recs @ [r]"] show ?case
    unfolding r by (simp add: csv_record_def UseCRLF_def csv_parse_fields)
qed

lemma csv_output_strings:
  "csv_output (map (map CString) srows) = concat (map csv_record srows)"
  by (induction srows) (simp_all add: row_strings_CString)

lemma string_rows_strings: "string_rows (map (map CString) srows)"
  by (simp add: string_rows_def row_strings_CString)

lemma row_strings_shape:
  "row_strings row acc = Some ss \<Longrightarrow> \<exists>cur. ss = acc @ cur \<and> row = map CString cur"
proof (induction row acc rule: row_strings.induct)
  case (1 cur)
  then show ?case by simp
next
  case (2 s items cur)
  then obtain cur' where "ss = (cur @ [s]) @ cur'" "items = map CString cur'"
    by auto
  then show ?case by (intro exI[of _ "s # cur'"]) simp
qed simp_all

lemma first_bad_row:
  "\<not> string_rows rows \<Longrightarrow>
   \<exists>pre bad post. rows = map (map CString) pre @ bad # post \<and> row_strings bad [] = None
      \<and> csv_output rows = concat (map csv_record pre)"
proof (induction rows)
  case Nil
  then show ?case by (simp add: string_rows_def)
next
  case (Cons row rows)
  show ?case
  proof (cases "row_strings row []")
    case None
    then show ?thesis
      by (intro exI[of _ "[]"] exI[of _ row] exI[of _ rows]) simp
  next
    case (Some cur)
    with row_strings_shape[of row "[]" cur] have row: "row = map CString cur" by simp
    from Cons.prems Some have "\<not> string_rows rows" by (simp add: string_rows_def)
    from Cons.IH[OF this] obtain pre bad post where
      "rows = map (map CString) pre @ bad # post" "row_strings bad [] = None"
      "csv_output rows = concat (map csv_record pre)" by blast
    with row Some show ?thesis
      by (intro exI[of _ "cur # pre"] exI[of _ bad] exI[of _ post]) simp
  qed
qed

lemma cache_file_sample: "cache_file ''/home/u'' = sample_cache"
  by (simp add: cache_file_def filepath_Join_def url_QueryEscape_def escape_byte_def
      unreserved_def sample_cache_def)

lemma tokenCacheFile_home:
  "user_Current env = Some home \<Longrightarrow>
   tokenCacheFile env w =
     (Inr (cache_file home), emit (MkdirAll (filepath_Join home ''.credentials'')) w)"
  by (simp add: tokenCacheFile_def cache_file_def Let_def)

lemma tokenFromFile_opened:
  "files w file = Some content \<Longrightarrow> open_ok env file \<Longrightarrow> token_Decode env content = (t, e) \<Longrightarrow>
   tokenFromFile env w file
     = ((Some t, e), emit (LogToken t) (emit (LogPrintf ''tokenFromFile() file'') w))"
  by (simp add: tokenFromFile_def os_Open_def emit_def)

lemma tokenFromFile_unopened:
  "files w file = None \<or> \<not> open_ok env file \<Longrightarrow>
   \<exists>err. tokenFromFile env w file
           = ((None, Some err), emit (LogPrintf ''tokenFromFile() file'') w)"
  by (auto simp: tokenFromFile_def os_Open_def emit_def split: option.splits)

lemma tokenFromFile_files:
  "files w1 = files w \<Longrightarrow> fst (tokenFromFile env w1 file) = fst (tokenFromFile env w file)"
  by (simp add: tokenFromFile_def os_Open_def emit_def split: option.splits prod.splits)

lemma tokenFromFile_frame:
  "files (snd (tokenFromFile env w file)) = files w"
  "stdin (snd (tokenFromFile env w file)) = stdin w"
  "filter interactive (trace (snd (tokenFromFile env w file))) = filter interactive (trace w)"
  by (simp_all add: tokenFromFile_def os_Open_def emit_def split: option.splits prod.splits sum.splits)

lemma getClient_cached:
  assumes "user_Current env = Some home"
    and "files w (cache_file home) = Some content"
    and "open_ok env (cache_file home)"
    and "token_Decode env content = (t, None)"
  shows "getClient env w config =
           (Inr (Client config (Some t)),
            emit (LogToken t) (emit (LogPrintf ''tokenFromFile() file'')
              (emit (MkdirAll (filepath_Join home ''.credentials'')) w)))"
proof -
  let ?w1 = "emit (MkdirAll (filepath_Join home ''.credentials'')) w"
  have "files ?w1 (cache_file home) = Some content"
    using assms(2) by (simp add: emit_def)
  from tokenFromFile_opened[OF this assms(3,4)] show ?thesis
    by (simp add: getClient_def tokenCacheFile_home[OF assms(1)])
qed

lemma print_items_frame:
  "files (fold (\<lambda>item. emit (PrintItem item)) row w) = files w"
  "stdin (fold (\<lambda>item. emit (PrintItem item)) row w) = stdin w"
  "filter interactive (trace (fold (\<lambda>item. emit (PrintItem item)) row w))
     = filter interactive (trace w)"
  "filter network (trace (fold (\<lambda>item. emit (PrintItem item)) row w))
     = filter network (trace w)"
  by (induction row arbitrary: w; simp add: emit_def)+

lemma print_row_frame:
  "files (print_row row w) = files w"
  "stdin (print_row row w) = stdin w"
  "filter interactive (trace (print_row row w)) = filter interactive (trace w)"
  "filter network (trace (print_row row w)) = filter network (trace w)"
  by (simp_all add: print_row_def emit_def print_items_frame)

lemma print_rows_frame:
  "files (fold print_row rows w) = files w"
  "stdin (fold print_row rows w) = stdin w"
  "filter interactive (trace (fold print_row rows w)) = filter interactive (trace w)"
  "filter network (trace (fold print_row rows w)) = filter network (trace w)"
  by (induction rows arbitrary: w; simp add: print_row_frame)+

lemma main_print_frame:
  "files (main_print w rows) = files w"
  "stdin (main_print w rows) = stdin w"
  "filter interactive (trace (main_print w rows)) = filter interactive (trace w)"
  "filter network (trace (main_print w rows)) = filter network (trace w)"
  by (simp_all add: main_print_def print_rows_frame emit_def)

lemma main_csv_frame:
  "stdin (snd (main_csv env w rows)) = stdin w"
  "filter interactive (trace (snd (main_csv env w rows))) = filter interactive (trace w)"
proof -
  obtain r w' where m: "main_csv env w rows = (r, w')" by (metis surj_pair)
  have "stdin w' = stdin w \<and> filter interactive (trace w') = filter interactive (trace w)"
  proof (cases "create_ok env out_csv")
    case False
    from main_csv_create_fails[OF False, of w rows] m show ?thesis
      by (auto simp: emit_def)
  next
    case True
    from main_csv_created[OF True m]
    have s: "stdin w' = stdin w"
      and f: "\<forall>m. r = Inl (Fatal m) \<longrightarrow> trace w' = trace w @ [LogFatal m]"
      and p: "\<forall>m. r = Inl (Panic m) \<longrightarrow> trace w' = trace w @ [PanicMsg m]"
      and u: "r = Inr () \<longrightarrow> trace w' = trace w"
      by auto
    show ?thesis
    proof (cases r)
      case (Inr u')
      with s u show ?thesis by simp
    next
      case (Inl a)
      with s f p show ?thesis by (cases a) auto
    qed
  qed
  with m show "stdin (snd (main_csv env w rows)) = stdin w"
    and "filter interactive (trace (snd (main_csv env w rows))) = filter interactive (trace w)"
    by simp_all
qed

lemma main_csv_strings:
  assumes "create_ok env out_csv" and "takes_all env"
  shows "fst (main_csv env w (map (map CString) srows)) = Inr ()"
    and "files (snd (main_csv env w (map (map CString) srows))) out_csv
           = Some (concat (map csv_record srows))"
proof -
  obtain r w' where m: "main_csv env w (map (map CString) srows) = (r, w')"
    by (metis surj_pair)
  from main_csv_created[OF assms(1) m] assms(2)
  obtain c where c: "files w' out_csv = Some c" "c = csv_output (map (map CString) srows)"
      "\<forall>m. r \<noteq> Inl (Fatal m)"
      "\<forall>m. r = Inl (Panic m) \<longrightarrow> \<not> string_rows (map (map CString) srows)"
    by auto
  have "r = Inr ()"
  proof (cases r)
    case (Inl a)
    with c(3,4) show ?thesis
      by (cases a) (auto simp: string_rows_strings)
  qed simp
  with m c show "fst (main_csv env w (map (map CString) srows)) = Inr ()"
    and "files (snd (main_csv env w (map (map CString) srows))) out_csv
           = Some (concat (map csv_record srows))"
    by (simp_all add: csv_output_strings)
qed

lemma takes_all_sample: "takes_all (sample_env rows)"
  by (simp add: takes_all_def sample_env_def)

lemma create_ok_sample: "create_ok (sample_env rows) name"
  by (simp add: sample_env_def)

lemma csv_record_plain_examples:
  "csv_record [''Alice'', ''A''] = ''Alice,A'' @ [LF]"
  "csv_record [''Bob'', ''B''] = ''Bob,B'' @ [LF]"
  "csv_record [''a''] = ''a'' @ [LF]"
  "csv_record [] = [LF]"
  "csv_record [[]] = [LF]"
  by (simp_all add: csv_record_def csv_field_def fieldNeedsQuotes_def UseCRLF_def
      DecodeRuneInString_def unicode_IsSpace_def)


lemma quoted_body_doubles:
  "quoted_body f = concat (map (\<lambda>c. if c = DQ then [DQ, DQ] else [c]) f)"
  by (induction f) (simp_all add: UseCRLF_def)

lemma csv_field_quotes:
  "Comma \<in> set f \<or> DQ \<in> set f \<or> LF \<in> set f \<Longrightarrow>
   csv_field f = [DQ] @ concat (map (\<lambda>c. if c = DQ then [DQ, DQ] else [c]) f) @ [DQ]"
  by (auto simp: csv_field_def fieldNeedsQuotes_def quoted_body_doubles)

lemma getClient_ignores_partial_token:
  assumes "user_Current env = Some home"
    and "files w (cache_file home) = Some content"
    and "open_ok env (cache_file home)"
    and "token_Decode env content = (t, Some err)"
  shows "fst (getClient (env\<lparr>token_Decode := (\<lambda>c. (t', Some err'))\<rparr>) w config)
           = fst (getClient env w config)"
proof -
  let ?env' = "env\<lparr>token_Decode := (\<lambda>c. (t', Some err'))\<rparr>"
  let ?w1 = "emit (MkdirAll (filepath_Join home ''.credentials'')) w"
  let ?w2 = "emit (LogPrintf ''tokenFromFile() file'') ?w1"
  have f1: "files ?w1 (cache_file home) = Some content"
    using assms(2) by (simp add: emit_def)
  have u: "user_Current ?env' = Some home" and o: "open_ok ?env' (cache_file home)"
    and d: "token_Decode ?env' content = (t', Some err')"
    using assms by simp_all
  have a: "getClient env w config =
             (case getTokenFromWeb env (emit (LogToken t) ?w2) config of
                (Inl a, w3) \<Rightarrow> (Inl a, w3)
              | (Inr tok', w3) \<Rightarrow>
                  (case saveToken env w3 (cache_file home) tok' of
                     (Inl a, w4) \<Rightarrow> (Inl a, w4)
                   | (Inr u, w4) \<Rightarrow> (Inr (Client config (Some tok')), w4)))"
    by (simp add: getClient_def tokenCacheFile_home[OF assms(1)]
        tokenFromFile_opened[OF f1 assms(3,4)])
  have b: "getClient ?env' w config =
             (case getTokenFromWeb ?env' (emit (LogToken t') ?w2) config of
                (Inl a, w3) \<Rightarrow> (Inl a, w3)
              | (Inr tok', w3) \<Rightarrow>
                  (case saveToken ?env' w3 (cache_file home) tok' of
                     (Inl a, w4) \<Rightarrow> (Inl a, w4)
                   | (Inr u, w4) \<Rightarrow> (Inr (Client config (Some tok')), w4)))"
    by (simp add: getClient_def tokenCacheFile_home[OF u]
        tokenFromFile_opened[OF f1 o d])
  show ?thesis
    unfolding a b
    by (simp add: getTokenFromWeb_def saveToken_def Let_def emit_def log_Fatal_def os_Create_def
        split: list.splits option.splits)
qed


lemma write_rows_fatal_iff:
  "(\<exists>m. fst (write_rows env w b rows) = Inl (Fatal m)) \<longleftrightarrow> write_fails env w b rows"
proof (induction rows arbitrary: w b)
  case Nil
  show ?case by simp
next
  case (Cons row rows)
  show ?case
  proof (cases "row_strings row []")
    case None
    then show ?thesis by simp
  next
    case (Some cur)
    obtain e b1 w1 where ws: "csv_Write env w b cur = (e, b1, w1)"
      by (metis surj_pair)
    show ?thesis
    proof (cases e)
      case None
      with Some ws Cons.IH[of w1 b1] show ?thesis by simp
    next
      case (Some err)
      with \<open>row_strings row [] = Some cur\<close> ws show ?thesis
        by (simp add: checkError_def log_Fatal_def)
    qed
  qed
qed

lemma main_csv_fatal_iff:
  assumes "create_ok env out_csv"
  shows "(\<exists>m. fst (main_csv env w rows) = Inl (Fatal m))
         \<longleftrightarrow> write_fails env (w\<lparr>files := (files w)(out_csv \<mapsto> [])\<rparr>) (csv_NewWriter out_csv) rows"
proof -
  let ?w1 = "w\<lparr>files := (files w)(out_csv \<mapsto> [])\<rparr>"
  obtain r0 b2 w2 where wr: "write_rows env ?w1 (csv_NewWriter out_csv) rows = (r0, b2, w2)"
    by (metis surj_pair)
  have "(\<exists>m. fst (main_csv env w rows) = Inl (Fatal m)) \<longleftrightarrow> (\<exists>m. r0 = Inl (Fatal m))"
  proof (cases r0)
    case (Inr u)
    with assms wr show ?thesis by (simp add: main_csv_def os_Create_def)
  next
    case (Inl a)
    with assms wr show ?thesis by (cases a) (simp_all add: main_csv_def os_Create_def)
  qed
  with write_rows_fatal_iff[of env ?w1 "csv_NewWriter out_csv" rows] wr show ?thesis
    by simp
qed

lemma fieldNeedsQuotes_xs:
  "\<not> fieldNeedsQuotes (replicate (Suc n) (CHR ''x''))"
  by (simp add: fieldNeedsQuotes_def DecodeRuneInString_def unicode_IsSpace_def)

lemma write_fails_example:
  "write_fails ((sample_env [])\<lparr>accepted := (\<lambda>name cur data. 0)\<rparr>)
     (cached_world\<lparr>files := (files cached_world)(out_csv \<mapsto> [])\<rparr>) (csv_NewWriter out_csv)
     [[CString (replicate 4097 (CHR ''x''))]]"
proof -
  have n: "\<not> fieldNeedsQuotes (replicate 4097 (CHR ''x''))"
    using fieldNeedsQuotes_xs[of 4096] by simp
  show ?thesis
    by (simp add: n csv_Write_def csv_record_def csv_field_def UseCRLF_def csv_NewWriter_def
        Available_def defaultBufSize_def bufio_Flush_def file_Write_def)
qed


lemma string_rows_iff:
  "string_rows rows \<longleftrightarrow> \<not> (\<exists>row \<in> set rows. \<exists>c \<in> set row. \<forall>s. c \<noteq> CString s)"
  by (auto simp: string_rows_def row_strings_None)

lemma csv_field_explicit:
  "csv_field f =
     (if f \<noteq> [] \<and> (f = [CHR 0x5C, CHR ''.'']
                   \<or> (\<exists>c \<in> set f. c = LF \<or> c = CR \<or> c = DQ \<or> c = Comma)
                   \<or> unicode_IsSpace (DecodeRuneInString f))
      then [DQ] @ concat (map (\<lambda>c. if c = DQ then [DQ, DQ] else [c]) f) @ [DQ]
      else f)"
  by (auto simp: csv_field_def fieldNeedsQuotes_def quoted_body_doubles)

lemma csv_fields_explicit:
  "csv_fields (f # fs) = csv_field f @ concat (map (\<lambda>g. Comma # csv_field g) fs)"
  by (induction fs arbitrary: f) simp_all

lemma csv_record_explicit:
  "csv_record row =
     (case row of [] \<Rightarrow> [] | f # fs \<Rightarrow> csv_field f @ concat (map (\<lambda>g. Comma # csv_field g) fs)) @ [LF]"
  by (cases row) (simp_all add: csv_record_def UseCRLF_def csv_fields_explicit)

lemma csv_record_more_examples:
  "csv_record [''x'' @ [LF] @ ''y'', ''a,b''] = [DQ] @ ''x'' @ [LF] @ ''y'' @ [DQ] @ '','' @ [DQ] @ ''a,b'' @ [DQ] @ [LF]"
  "csv_record [''b''] = ''b'' @ [LF]"
  "csv_record ['' x'', [CHR 0x5C, CHR ''.'']]
     = [DQ] @ '' x'' @ [DQ] @ '','' @ [DQ] @ [CHR 0x5C, CHR ''.''] @ [DQ] @ [LF]"
  by (simp_all add: csv_record_def csv_field_def fieldNeedsQuotes_def UseCRLF_def
      DecodeRuneInString_def unicode_IsSpace_def)

section \<open>The token cache\<close>

text \<open>
  Claim C1. In every run in which the token cache file exists, can be opened and decodes
  without an error, \<open>getClient\<close> builds the HTTP client from the cached token. All it
  does besides is to make the cache directory and to log the path and the token: it
  prints no prompt, reads nothing from the console, exchanges no code and writes no file,
  so \<open>getTokenFromWeb\<close> is not invoked. The whole run of \<open>main\<close> from such a world
  reads nothing from the console and records no event of the interactive authorisation
  either.
\<close>

theorem cached_token_no_interaction:
  assumes "user_Current env = Some home"
    and "files w (cache_file home) = Some content"
    and "open_ok env (cache_file home)"
    and "token_Decode env content = (t, None)"
  shows "fst (getClient env w config) = Inr (Client config (Some t))
       \<and> trace (snd (getClient env w config))
           = trace w @ [MkdirAll (filepath_Join home ''.credentials''),
                        LogPrintf ''tokenFromFile() file'', LogToken t]
       \<and> stdin (snd (getClient env w config)) = stdin w
       \<and> files (snd (getClient env w config)) = files w
       \<and> stdin (snd (main env w)) = stdin w
       \<and> filter interactive (trace (snd (main env w))) = filter interactive (trace w)"
proof -
  have g: "getClient env w cfg =
           (Inr (Client cfg (Some t)),
            emit (LogToken t) (emit (LogPrintf ''tokenFromFile() file'')
              (emit (MkdirAll (filepath_Join home ''.credentials'')) w)))" for cfg
    by (rule getClient_cached[OF assms])
  have m: "stdin (snd (main env w)) = stdin w
         \<and> filter interactive (trace (snd (main env w))) = filter interactive (trace w)"
    by (simp add: main_def g log_Fatal_def emit_def Let_def main_csv_frame main_print_frame
        split: sum.splits option.splits)
  from g m show ?thesis by (simp add: emit_def)
qed

theorem cached_token_no_interaction_witness:
  "fst (getClient (sample_env []) cached_world sample_config)
     = Inr (Client sample_config (Some cached_token))
   \<and> trace (snd (getClient (sample_env []) cached_world sample_config))
       = trace cached_world @ [MkdirAll (filepath_Join ''/home/u'' ''.credentials''),
                               LogPrintf ''tokenFromFile() file'', LogToken cached_token]
   \<and> stdin (snd (getClient (sample_env []) cached_world sample_config)) = stdin cached_world
   \<and> files (snd (getClient (sample_env []) cached_world sample_config)) = files cached_world
   \<and> stdin (snd (main (sample_env []) cached_world)) = stdin cached_world
   \<and> filter interactive (trace (snd (main (sample_env []) cached_world)))
       = filter interactive (trace cached_world)"
proof -
  have h1: "user_Current (sample_env []) = Some ''/home/u''"
    by (simp add: sample_env_def)
  have h2: "files cached_world (cache_file ''/home/u'') = Some (''ya29.cached'' @ [LF])"
    by (simp add: cache_file_sample cached_world_def sample_cache_def)
  have h3: "open_ok (sample_env []) (cache_file ''/home/u'')"
    by (simp add: sample_env_def)
  have h4: "token_Decode (sample_env []) (''ya29.cached'' @ [LF]) = (cached_token, None)"
    by (simp add: sample_env_def sample_Decode_def)
  show ?thesis
    by (rule cached_token_no_interaction[OF h1 h2 h3 h4])
qed

text \<open>
  Claim C6. In every run in which the file \<^verbatim>\<open>client_secret.json\<close> cannot be read (it is
  absent, or may not be opened), \<open>main\<close> ends at once with the fatal error of the
  configuration step; the only event it adds is that fatal log line, so the run performs
  no network call: neither a token exchange nor a request to the Sheets API.
\<close>

theorem no_client_secret_no_network:
  assumes "files w ''client_secret.json'' = None \<or> \<not> open_ok env ''client_secret.json''"
  shows "main env w =
           (Inl (Fatal ''Unable to read client secret file''),
            emit (LogFatal ''Unable to read client secret file'') w)
       \<and> filter network (trace (snd (main env w))) = filter network (trace w)"
  using assms
  by (auto simp: main_def os_Open_def log_Fatal_def emit_def split: option.splits)

theorem no_client_secret_no_network_witness:
  "main (sample_env []) (cached_world\<lparr>files := Map.empty\<rparr>) =
     (Inl (Fatal ''Unable to read client secret file''),
      emit (LogFatal ''Unable to read client secret file'') (cached_world\<lparr>files := Map.empty\<rparr>))
   \<and> filter network (trace (snd (main (sample_env []) (cached_world\<lparr>files := Map.empty\<rparr>))))
       = filter network (trace (cached_world\<lparr>files := Map.empty\<rparr>))"
proof -
  have h: "files (cached_world\<lparr>files := Map.empty\<rparr>) ''client_secret.json'' = None
         \<or> \<not> open_ok (sample_env []) ''client_secret.json''"
    by simp
  show ?thesis
    by (rule no_client_secret_no_network[OF h])
qed



text \<open>
  Claim C9. For every cache file that exists and can be opened but whose content does not
  decode, \<open>tokenFromFile\<close> returns a non-nil token (what the decoder had filled in)
  together with the decoding error. The token is nil exactly when the file cannot be
  opened, and then there is an error too; so only the error tells whether the token is
  valid. The caller \<open>getClient\<close> looks at the error alone: after a decoding error its
  result does not depend on the token that came with the error.
\<close>

theorem decode_failure_returns_token_and_error:
  "(files w file = Some content \<and> open_ok env file \<and> token_Decode env content = (t, Some err) \<longrightarrow>
      fst (tokenFromFile env w file) = (Some t, Some err)
    \<and> (user_Current env = Some home \<and> file = cache_file home \<longrightarrow>
         fst (getClient (env\<lparr>token_Decode := (\<lambda>c. (t', Some err'))\<rparr>) w config)
           = fst (getClient env w config)))
   \<and> (fst (fst (tokenFromFile env w file)) = None
        \<longleftrightarrow> files w file = None \<or> \<not> open_ok env file)
   \<and> (fst (fst (tokenFromFile env w file)) = None \<longrightarrow> snd (fst (tokenFromFile env w file)) \<noteq> None)"
proof -
  have "fst (getClient (env\<lparr>token_Decode := (\<lambda>c. (t', Some err'))\<rparr>) w config)
           = fst (getClient env w config)"
    if "files w file = Some content" "open_ok env file" "token_Decode env content = (t, Some err)"
      "user_Current env = Some home" "file = cache_file home"
    using getClient_ignores_partial_token[of env home w content t err t' err' config] that
    by simp
  moreover have "fst (tokenFromFile env w file) = (Some t, Some err)"
    if "files w file = Some content" "open_ok env file" "token_Decode env content = (t, Some err)"
    using that by (simp add: tokenFromFile_opened)
  moreover have "fst (fst (tokenFromFile env w file)) = None
        \<longleftrightarrow> files w file = None \<or> \<not> open_ok env file"
    by (auto simp: tokenFromFile_def os_Open_def emit_def split: option.splits prod.splits)
  moreover have "fst (fst (tokenFromFile env w file)) = None
        \<longrightarrow> snd (fst (tokenFromFile env w file)) \<noteq> None"
    by (auto simp: tokenFromFile_def os_Open_def emit_def split: option.splits prod.splits)
  ultimately show ?thesis by blast
qed

theorem decode_failure_returns_token_and_error_witness:
  "files (fresh_world\<lparr>files := [sample_cache \<mapsto> ''garbage'']\<rparr>) sample_cache = Some ''garbage''
   \<and> open_ok (sample_env []) sample_cache
   \<and> token_Decode (sample_env []) ''garbage'' = (zero_token, Some ErrDecode)
   \<and> fst (tokenFromFile (sample_env []) (fresh_world\<lparr>files := [sample_cache \<mapsto> ''garbage'']\<rparr>)
            sample_cache) = (Some zero_token, Some ErrDecode)
   \<and> fst (getClient ((sample_env [])\<lparr>token_Decode := (\<lambda>c. (cached_token, Some ErrEOF))\<rparr>)
            (fresh_world\<lparr>files := [sample_cache \<mapsto> ''garbage'']\<rparr>) sample_config)
       = fst (getClient (sample_env []) (fresh_world\<lparr>files := [sample_cache \<mapsto> ''garbage'']\<rparr>)
                sample_config)
   \<and> fst (fst (tokenFromFile (sample_env []) (fresh_world\<lparr>files := Map.empty\<rparr>) sample_cache)) = None
   \<and> snd (fst (tokenFromFile (sample_env []) (fresh_world\<lparr>files := Map.empty\<rparr>) sample_cache)) \<noteq> None"
proof -
  have h1: "files (fresh_world\<lparr>files := [sample_cache \<mapsto> ''garbage'']\<rparr>) sample_cache
              = Some ''garbage''"
    by simp
  have h2: "open_ok (sample_env []) sample_cache"
    by (simp add: sample_env_def)
  have h3: "token_Decode (sample_env []) ''garbage'' = (zero_token, Some ErrDecode)"
    by (simp add: sample_env_def sample_Decode_def)
  have h4: "files (fresh_world\<lparr>files := Map.empty\<rparr>) sample_cache = None"
    by simp
  have h5: "user_Current (sample_env []) = Some ''/home/u''
          \<and> sample_cache = cache_file ''/home/u''"
    by (simp add: sample_env_def cache_file_sample)
  from decode_failure_returns_token_and_error
         [of "fresh_world\<lparr>files := [sample_cache \<mapsto> ''garbage'']\<rparr>" sample_cache
             "''garbage''" "sample_env []" zero_token ErrDecode "''/home/u''"
             cached_token ErrEOF sample_config]
       decode_failure_returns_token_and_error
         [of "fresh_world\<lparr>files := Map.empty\<rparr>" sample_cache "''garbage''" "sample_env []"
             zero_token ErrDecode "''/home/u''" cached_token ErrEOF sample_config]
       h1 h2 h3 h4 h5
  show ?thesis by blast
qed

section \<open>The CSV output\<close>

text \<open>
  Claim C3. For every response whose rows hold only string cells, when the output file
  can be created and the file system takes the bytes written, the CSV step ends normally
  and the output file is, row after row in the order of the rows and with nothing before
  the first, one record per row: the cells of the row in column order, with a comma
  before each cell but the first, and one line feed after the last. A cell is written as
  it is, unless it holds a comma, a double quote, a line feed or a carriage return, begins
  with a space character, or is backslash-dot: then it is written in double quotes, with
  each double quote in it doubled, so that a line feed or a comma of a cell stays inside
  the record of its row. A row without cells gives an empty line. For the rows Alice, A
  and Bob, B the file is the two lines \<^verbatim>\<open>Alice,A\<close> and \<^verbatim>\<open>Bob,B\<close>.
\<close>

theorem csv_one_record_per_row:
  assumes "create_ok env out_csv" and "takes_all env"
  shows "fst (main_csv env w (map (map CString) srows)) = Inr ()
       \<and> files (snd (main_csv env w (map (map CString) srows))) out_csv
           = Some (concat (map
               (\<lambda>row. (case row of
                          [] \<Rightarrow> []
                        | first # others \<Rightarrow>
                            (if first \<noteq> []
                                \<and> (first = [CHR 0x5C, CHR ''.'']
                                     \<or> (\<exists>c \<in> set first. c = LF \<or> c = CR \<or> c = DQ \<or> c = Comma)
                                     \<or> unicode_IsSpace (DecodeRuneInString first))
                             then [DQ] @ concat (map (\<lambda>c. if c = DQ then [DQ, DQ] else [c]) first)
                                  @ [DQ]
                             else first)
                            @ concat (map
                                (\<lambda>cell. Comma #
                                   (if cell \<noteq> []
                                       \<and> (cell = [CHR 0x5C, CHR ''.'']
                                            \<or> (\<exists>c \<in> set cell. c = LF \<or> c = CR \<or> c = DQ \<or> c = Comma)
                                            \<or> unicode_IsSpace (DecodeRuneInString cell))
                                    then [DQ] @ concat (map (\<lambda>c. if c = DQ then [DQ, DQ] else [c]) cell)
                                         @ [DQ]
                                    else cell))
                                others))
                       @ [LF])
               srows))
       \<and> files (snd (main_csv env w
                  [[CString ''Alice'', CString ''A''], [CString ''Bob'', CString ''B'']])) out_csv
           = Some (''Alice,A'' @ [LF] @ ''Bob,B'' @ [LF])
       \<and> files (snd (main_csv env w [[CString (''x'' @ [LF] @ ''y''), CString ''a,b'']])) out_csv
           = Some ([DQ] @ ''x'' @ [LF] @ ''y'' @ [DQ] @ '','' @ [DQ] @ ''a,b'' @ [DQ] @ [LF])
       \<and> files (snd (main_csv env w [[CString ''a''], [], [CString ''b'']])) out_csv
           = Some (''a'' @ [LF] @ [LF] @ ''b'' @ [LF])
       \<and> files (snd (main_csv env w [[CString '' x'', CString [CHR 0x5C, CHR ''.'']]])) out_csv
           = Some ([DQ] @ '' x'' @ [DQ] @ '','' @ [DQ] @ [CHR 0x5C, CHR ''.''] @ [DQ] @ [LF])"
proof -
  have f: "files (snd (main_csv env w (map (map CString) rows))) out_csv
             = Some (concat (map csv_record rows))" for rows
    by (rule main_csv_strings(2)[OF assms])
  have general: "files (snd (main_csv env w (map (map CString) srows))) out_csv
           = Some (concat (map
               (\<lambda>row. (case row of
                          [] \<Rightarrow> []
                        | first # others \<Rightarrow>
                            (if first \<noteq> []
                                \<and> (first = [CHR 0x5C, CHR ''.'']
                                     \<or> (\<exists>c \<in> set first. c = LF \<or> c = CR \<or> c = DQ \<or> c = Comma)
                                     \<or> unicode_IsSpace (DecodeRuneInString first))
                             then [DQ] @ concat (map (\<lambda>c. if c = DQ then [DQ, DQ] else [c]) first)
                                  @ [DQ]
                             else first)
                            @ concat (map
                                (\<lambda>cell. Comma #
                                   (if cell \<noteq> []
                                       \<and> (cell = [CHR 0x5C, CHR ''.'']
                                            \<or> (\<exists>c \<in> set cell. c = LF \<or> c = CR \<or> c = DQ \<or> c = Comma)
                                            \<or> unicode_IsSpace (DecodeRuneInString cell))
                                    then [DQ] @ concat (map (\<lambda>c. if c = DQ then [DQ, DQ] else [c]) cell)
                                         @ [DQ]
                                    else cell))
                                others))
                       @ [LF])
               srows))"
    unfolding f csv_record_explicit csv_field_explicit ..
  have alice: "files (snd (main_csv env w
                  [[CString ''Alice'', CString ''A''], [CString ''Bob'', CString ''B'']])) out_csv
           = Some (''Alice,A'' @ [LF] @ ''Bob,B'' @ [LF])"
    using f[of "[[''Alice'', ''A''], [''Bob'', ''B'']]"]
    by (simp add: csv_record_plain_examples)
  have quoted: "files (snd (main_csv env w [[CString (''x'' @ [LF] @ ''y''), CString ''a,b'']])) out_csv
           = Some ([DQ] @ ''x'' @ [LF] @ ''y'' @ [DQ] @ '','' @ [DQ] @ ''a,b'' @ [DQ] @ [LF])"
    using f[of "[[''x'' @ [LF] @ ''y'', ''a,b'']]"] csv_record_more_examples(1)
    by simp
  have blank: "files (snd (main_csv env w [[CString ''a''], [], [CString ''b'']])) out_csv
           = Some (''a'' @ [LF] @ [LF] @ ''b'' @ [LF])"
    using f[of "[[''a''], [], [''b'']]"]
    by (simp add: csv_record_plain_examples csv_record_more_examples(2))
  have spaced: "files (snd (main_csv env w [[CString '' x'', CString [CHR 0x5C, CHR ''.'']]])) out_csv
           = Some ([DQ] @ '' x'' @ [DQ] @ '','' @ [DQ] @ [CHR 0x5C, CHR ''.''] @ [DQ] @ [LF])"
    using f[of "[['' x'', [CHR 0x5C, CHR ''.'']]]"] csv_record_more_examples(3)
    by simp
  from main_csv_strings(1)[OF assms, of w srows] general alice quoted blank spaced
  show ?thesis by blast
qed

theorem csv_one_record_per_row_witness:
  "fst (main_csv (sample_env []) cached_world (map (map CString) [[''x'', ''y,z''], [''v'']])) = Inr ()
   \<and> files (snd (main_csv (sample_env []) cached_world
                 (map (map CString) [[''x'', ''y,z''], [''v'']]))) out_csv
       = Some (''x,'' @ [DQ] @ ''y,z'' @ [DQ] @ [LF] @ ''v'' @ [LF])
   \<and> files (snd (main_csv (sample_env []) cached_world
                  [[CString ''Alice'', CString ''A''], [CString ''Bob'', CString ''B'']])) out_csv
       = Some (''Alice,A'' @ [LF] @ ''Bob,B'' @ [LF])
   \<and> files (snd (main_csv (sample_env []) cached_world
                  [[CString (''x'' @ [LF] @ ''y''), CString ''a,b'']])) out_csv
       = Some ([DQ] @ ''x'' @ [LF] @ ''y'' @ [DQ] @ '','' @ [DQ] @ ''a,b'' @ [DQ] @ [LF])
   \<and> files (snd (main_csv (sample_env []) cached_world [[CString ''a''], [], [CString ''b'']])) out_csv
       = Some (''a'' @ [LF] @ [LF] @ ''b'' @ [LF])
   \<and> files (snd (main_csv (sample_env []) cached_world
                  [[CString '' x'', CString [CHR 0x5C, CHR ''.'']]])) out_csv
       = Some ([DQ] @ '' x'' @ [DQ] @ '','' @ [DQ] @ [CHR 0x5C, CHR ''.''] @ [DQ] @ [LF])"
  using csv_one_record_per_row[OF create_ok_sample takes_all_sample,
          of "[]" cached_world "[[''x'', ''y,z''], [''v'']]"]
  by (simp add: DecodeRuneInString_def unicode_IsSpace_def)

text \<open>
  Claim C4. For every response that has a row with a cell which is not a string, the CSV
  step ends with an error, whatever the environment does: the rows split into string rows,
  the first offending row and the rest, and at the end the output file is either as it
  was before the step or holds a prefix of the records of the string rows before the
  offending row. So no record of the offending row or of a later row is written, and no
  cell that is not a string is turned into text. When the file can be created and the
  file system takes the bytes written, the step ends in the panic of the type assertion.
\<close>

theorem non_string_cell_aborts:
  assumes "\<exists>row \<in> set rows. \<exists>c \<in> set row. \<forall>s. c \<noteq> CString s"
  shows "\<exists>pre bad post a.
           rows = map (map CString) pre @ bad # post
         \<and> (\<exists>c \<in> set bad. \<forall>s. c \<noteq> CString s)
         \<and> fst (main_csv env w rows) = Inl a
         \<and> (files (snd (main_csv env w rows)) out_csv = files w out_csv
             \<or> (\<exists>c. files (snd (main_csv env w rows)) out_csv = Some c
                    \<and> prefix c (concat (map csv_record pre))))
         \<and> (create_ok env out_csv \<and> takes_all env \<longrightarrow>
               (\<exists>m. a = Panic m)
             \<and> files (snd (main_csv env w rows)) out_csv = Some (concat (map csv_record pre)))"
proof -
  from assms have ns: "\<not> string_rows rows"
    by (auto simp: string_rows_def row_strings_None)
  from first_bad_row[OF ns] obtain pre bad post where
    d: "rows = map (map CString) pre @ bad # post" "row_strings bad [] = None"
       "csv_output rows = concat (map csv_record pre)"
    by blast
  from d(2) have bad: "\<exists>c \<in> set bad. \<forall>s. c \<noteq> CString s"
    by (simp add: row_strings_None)
  obtain r w' where m: "main_csv env w rows = (r, w')" by (metis surj_pair)
  show ?thesis
  proof (cases "create_ok env out_csv")
    case False
    from main_csv_create_fails[OF False, of w rows] d(1) bad False show ?thesis
      by (intro exI[of _ pre] exI[of _ bad] exI[of _ post]
            exI[of _ "Fatal ''Cannot create file''"]) (simp add: emit_def)
  next
    case True
    from main_csv_created[OF True m] ns
    obtain c where c: "files w' out_csv = Some c" "prefix c (csv_output rows)"
        "r \<noteq> Inr ()" "takes_all env \<longrightarrow> c = csv_output rows \<and> (\<forall>m. r \<noteq> Inl (Fatal m))"
      by auto
    from c(3) obtain a where a: "r = Inl a" by (cases r) auto
    from c(4) a have p: "takes_all env \<longrightarrow> (\<exists>m. a = Panic m)"
      by (cases a) auto
    from m a c p d(1) bad show ?thesis
      unfolding d(3)
      by (intro exI[of _ pre] exI[of _ bad] exI[of _ post] exI[of _ a]) simp
  qed
qed

theorem non_string_cell_aborts_witness:
  "\<exists>pre bad post a.
       [[CString ''a''], [CNumber 1], [CString ''b'']] = map (map CString) pre @ bad # post
     \<and> (\<exists>c. c \<in> set bad \<and> (\<forall>s. c \<noteq> CString s))
     \<and> fst (main_csv (sample_env []) cached_world [[CString ''a''], [CNumber 1], [CString ''b'']])
         = Inl a
     \<and> (\<exists>m. a = Panic m)
     \<and> files (snd (main_csv (sample_env []) cached_world
                [[CString ''a''], [CNumber 1], [CString ''b'']])) out_csv
         = Some (concat (map csv_record pre))"
proof -
  have h: "\<exists>row \<in> set [[CString ''a''], [CNumber 1], [CString ''b'']].
             \<exists>c \<in> set row. \<forall>s. c \<noteq> CString s"
    by simp
  from non_string_cell_aborts[OF h, of "sample_env []" cached_world]
  show ?thesis
    using create_ok_sample[of "[]" out_csv] takes_all_sample[of "[]"] by (simp add: Bex_def) blast
qed

text \<open>
  Claim C5, as the specification states it: whenever the CSV step fails after the rows
  were printed, the output file is absent or empty at the end. This fails. In the run
  below the second row has a number cell: both rows are printed, the type assertion
  panics, the deferred flush runs, and the output file ends up holding the record of the
  first row.
\<close>

theorem partial_output_counterexample:
  "fst (main (sample_env [[CString ''a''], [CNumber 1]]) cached_world)
     = Inl (Panic ''interface conversion: interface {} is not string'')
   \<and> PrintItem (CNumber 1) \<in> set (trace (snd (main (sample_env [[CString ''a''], [CNumber 1]])
                                                  cached_world)))
   \<and> files (snd (main (sample_env [[CString ''a''], [CNumber 1]]) cached_world)) out_csv
       = Some (''a'' @ [LF])"
  by (simp add: main_def sample_env_def cached_world_def os_Open_def sample_config_def
      getClient_def tokenCacheFile_def filepath_Join_def url_QueryEscape_def escape_byte_def
      unreserved_def tokenFromFile_def emit_def sample_Decode_def sample_cache_def main_csv_def
      main_print_def print_row_def os_Create_def csv_Write_def csv_NewWriter_def Available_def
      defaultBufSize_def csv_record_def csv_field_def fieldNeedsQuotes_def UseCRLF_def
      DecodeRuneInString_def unicode_IsSpace_def bufio_Flush_def file_Write_def)

text \<open>
  Claim C5, amended. The CSV step aborts in every run in which it fails in one of the
  three ways the program detects, and in no other run. If the output file cannot be
  created, the run ends with the fatal error \<^verbatim>\<open>Cannot create file\<close> and every file is left
  as it was. If a call of \<^verbatim>\<open>writer.Write\<close> returns an error, the run ends with the fatal
  error \<^verbatim>\<open>Cannot write to file\<close>. If a cell is not a string (and no write failed before),
  the run ends with the panic of the type assertion. In the last two cases the output
  file holds a prefix of the records of the string rows that come before the first
  offending row; after the panic the deferred flush has run, so with a file system that
  takes the bytes written the file holds all of these records: it need not be empty. An
  error of the deferred flush is not looked at: with string rows and no failed call of
  \<^verbatim>\<open>writer.Write\<close> the step ends normally.
\<close>

theorem csv_failure_leaves_prefix:
  "(\<not> create_ok env out_csv \<longrightarrow>
      main_csv env w rows
        = (Inl (Fatal ''Cannot create file''), emit (LogFatal ''Cannot create file'') w))
   \<and> (create_ok env out_csv
        \<and> write_fails env (w\<lparr>files := (files w)(out_csv \<mapsto> [])\<rparr>) (csv_NewWriter out_csv) rows \<longrightarrow>
          fst (main_csv env w rows) = Inl (Fatal ''Cannot write to file'')
        \<and> (\<exists>c. files (snd (main_csv env w rows)) out_csv = Some c \<and> prefix c (csv_output rows)))
   \<and> (create_ok env out_csv
        \<and> \<not> write_fails env (w\<lparr>files := (files w)(out_csv \<mapsto> [])\<rparr>) (csv_NewWriter out_csv) rows
        \<and> (\<exists>row \<in> set rows. \<exists>c \<in> set row. \<forall>s. c \<noteq> CString s) \<longrightarrow>
          (\<exists>m. fst (main_csv env w rows) = Inl (Panic m))
        \<and> (\<exists>c. files (snd (main_csv env w rows)) out_csv = Some c \<and> prefix c (csv_output rows)
               \<and> (takes_all env \<longrightarrow> c = csv_output rows)))
   \<and> (create_ok env out_csv
        \<and> \<not> write_fails env (w\<lparr>files := (files w)(out_csv \<mapsto> [])\<rparr>) (csv_NewWriter out_csv) rows
        \<and> \<not> (\<exists>row \<in> set rows. \<exists>c \<in> set row. \<forall>s. c \<noteq> CString s) \<longrightarrow>
          fst (main_csv env w rows) = Inr ())"
proof -
  let ?fails = "write_fails env (w\<lparr>files := (files w)(out_csv \<mapsto> [])\<rparr>) (csv_NewWriter out_csv) rows"
  let ?bad = "\<exists>row \<in> set rows. \<exists>c \<in> set row. \<forall>s. c \<noteq> CString s"
  obtain r w' where m: "main_csv env w rows = (r, w')" by (metis surj_pair)
  have created: "\<exists>c. files w' out_csv = Some c \<and> prefix c (csv_output rows)
           \<and> (\<forall>m. r = Inl (Fatal m) \<longrightarrow> m = ''Cannot write to file'')
           \<and> (\<forall>m. r = Inl (Panic m) \<longrightarrow> ?bad)
           \<and> (r = Inr () \<longrightarrow> \<not> ?bad)
           \<and> (takes_all env \<longrightarrow> c = csv_output rows)"
    if c: "create_ok env out_csv"
    using main_csv_created[OF c m] by (auto simp: string_rows_iff)
  have fatal: "(\<exists>m. r = Inl (Fatal m)) \<longleftrightarrow> ?fails" if c: "create_ok env out_csv"
    using main_csv_fatal_iff[OF c, of w rows] m by simp
  have one: "\<not> create_ok env out_csv \<longrightarrow>
      main_csv env w rows
        = (Inl (Fatal ''Cannot create file''), emit (LogFatal ''Cannot create file'') w)"
    by (simp add: main_csv_create_fails)
  have two: "create_ok env out_csv \<and> ?fails \<longrightarrow>
          fst (main_csv env w rows) = Inl (Fatal ''Cannot write to file'')
        \<and> (\<exists>c. files (snd (main_csv env w rows)) out_csv = Some c \<and> prefix c (csv_output rows))"
    using created fatal m by auto
  have three: "create_ok env out_csv \<and> \<not> ?fails \<and> ?bad \<longrightarrow>
          (\<exists>m. fst (main_csv env w rows) = Inl (Panic m))
        \<and> (\<exists>c. files (snd (main_csv env w rows)) out_csv = Some c \<and> prefix c (csv_output rows)
               \<and> (takes_all env \<longrightarrow> c = csv_output rows))"
  proof (intro impI, elim conjE)
    assume c: "create_ok env out_csv" and nf: "\<not> ?fails" and bad: ?bad
    from created[OF c] bad have nr: "r \<noteq> Inr ()" by blast
    from fatal[OF c] nf have nfat: "\<forall>m. r \<noteq> Inl (Fatal m)" by blast
    from nr nfat obtain m' where "r = Inl (Panic m')"
      by (cases r; cases "projl r") auto
    with created[OF c] m show "(\<exists>m. fst (main_csv env w rows) = Inl (Panic m))
        \<and> (\<exists>c. files (snd (main_csv env w rows)) out_csv = Some c \<and> prefix c (csv_output rows)
               \<and> (takes_all env \<longrightarrow> c = csv_output rows))"
      by auto
  qed
  have four: "create_ok env out_csv \<and> \<not> ?fails \<and> \<not> ?bad \<longrightarrow> fst (main_csv env w rows) = Inr ()"
  proof (intro impI, elim conjE)
    assume c: "create_ok env out_csv" and nf: "\<not> ?fails" and good: "\<not> ?bad"
    from fatal[OF c] nf have nfat: "\<forall>m. r \<noteq> Inl (Fatal m)" by blast
    from created[OF c] good have np: "\<forall>m. r \<noteq> Inl (Panic m)" by blast
    from nfat np have "r = Inr ()"
      by (cases r; cases "projl r") auto
    with m show "fst (main_csv env w rows) = Inr ()" by simp
  qed
  from one two three four show ?thesis by blast
qed

theorem csv_failure_leaves_prefix_witness:
  "main_csv ((sample_env [])\<lparr>create_ok := (\<lambda>name. False)\<rparr>) cached_world [[CString ''a'']]
     = (Inl (Fatal ''Cannot create file''), emit (LogFatal ''Cannot create file'') cached_world)
   \<and> write_fails ((sample_env [])\<lparr>accepted := (\<lambda>name cur data. 0)\<rparr>)
        (cached_world\<lparr>files := (files cached_world)(out_csv \<mapsto> [])\<rparr>) (csv_NewWriter out_csv)
        [[CString (replicate 4097 (CHR ''x''))]]
   \<and> fst (main_csv ((sample_env [])\<lparr>accepted := (\<lambda>name cur data. 0)\<rparr>) cached_world
            [[CString (replicate 4097 (CHR ''x''))]])
       = Inl (Fatal ''Cannot write to file'')
   \<and> (\<exists>m. fst (main_csv (sample_env []) cached_world [[CString ''a''], [CNumber 1]])
            = Inl (Panic m))
   \<and> (\<exists>c. files (snd (main_csv (sample_env []) cached_world [[CString ''a''], [CNumber 1]])) out_csv
            = Some c
          \<and> c = csv_output [[CString ''a''], [CNumber 1]])
   \<and> csv_output [[CString ''a''], [CNumber 1]] = ''a'' @ [LF]
   \<and> fst (main_csv ((sample_env [])\<lparr>accepted := (\<lambda>name cur data. 0)\<rparr>) cached_world
            [[CString ''a''], [CString ''b'']]) = Inr ()
   \<and> files (snd (main_csv ((sample_env [])\<lparr>accepted := (\<lambda>name cur data. 0)\<rparr>) cached_world
                   [[CString ''a''], [CString ''b'']])) out_csv = Some []"
proof -
  have c0: "\<not> create_ok ((sample_env [])\<lparr>create_ok := (\<lambda>name. False)\<rparr>) out_csv"
    by simp
  have c1: "create_ok ((sample_env [])\<lparr>accepted := (\<lambda>name cur data. 0)\<rparr>) out_csv"
    by (simp add: sample_env_def)
  have nf: "\<not> write_fails (sample_env [])
               (cached_world\<lparr>files := (files cached_world)(out_csv \<mapsto> [])\<rparr>) (csv_NewWriter out_csv)
               [[CString ''a''], [CNumber 1]]"
    by (simp add: sample_env_def csv_Write_def csv_NewWriter_def Available_def defaultBufSize_def
        csv_record_plain_examples)
  have nf2: "\<not> write_fails ((sample_env [])\<lparr>accepted := (\<lambda>name cur data. 0)\<rparr>)
               (cached_world\<lparr>files := (files cached_world)(out_csv \<mapsto> [])\<rparr>) (csv_NewWriter out_csv)
               [[CString ''a''], [CString ''b'']]"
    by (simp add: csv_Write_def csv_NewWriter_def Available_def defaultBufSize_def
        csv_record_plain_examples csv_record_more_examples(2))
  have bad: "\<exists>row \<in> set [[CString ''a''], [CNumber 1]]. \<exists>c \<in> set row. \<forall>s. c \<noteq> CString s"
    by simp
  have good: "\<not> (\<exists>row \<in> set [[CString ''a''], [CString ''b'']]. \<exists>c \<in> set row. \<forall>s. c \<noteq> CString s)"
    by simp
  have out: "csv_output [[CString ''a''], [CNumber 1]] = ''a'' @ [LF]"
    by (simp add: csv_record_plain_examples)
  have empty: "files (snd (main_csv ((sample_env [])\<lparr>accepted := (\<lambda>name cur data. 0)\<rparr>) cached_world
                   [[CString ''a''], [CString ''b'']])) out_csv = Some []"
    by (simp add: sample_env_def main_csv_def os_Create_def csv_Write_def csv_NewWriter_def
        Available_def defaultBufSize_def csv_record_plain_examples csv_record_more_examples(2)
        bufio_Flush_def file_Write_def)
  have t1: "main_csv ((sample_env [])\<lparr>create_ok := (\<lambda>name. False)\<rparr>) cached_world [[CString ''a'']]
     = (Inl (Fatal ''Cannot create file''), emit (LogFatal ''Cannot create file'') cached_world)"
    by (rule csv_failure_leaves_prefix[THEN conjunct1, THEN mp, OF c0])
  have t2: "fst (main_csv ((sample_env [])\<lparr>accepted := (\<lambda>name cur data. 0)\<rparr>) cached_world
            [[CString (replicate 4097 (CHR ''x''))]])
       = Inl (Fatal ''Cannot write to file'')"
    using csv_failure_leaves_prefix[THEN conjunct2, THEN conjunct1, THEN mp,
            OF conjI[OF c1 write_fails_example]]
    by (rule conjunct1)
  have t3: "(\<exists>m. fst (main_csv (sample_env []) cached_world [[CString ''a''], [CNumber 1]])
                  = Inl (Panic m))
        \<and> (\<exists>c. files (snd (main_csv (sample_env []) cached_world [[CString ''a''], [CNumber 1]]))
                  out_csv = Some c
               \<and> prefix c (csv_output [[CString ''a''], [CNumber 1]])
               \<and> (takes_all (sample_env []) \<longrightarrow> c = csv_output [[CString ''a''], [CNumber 1]]))"
    by (rule csv_failure_leaves_prefix[THEN conjunct2, THEN conjunct2, THEN conjunct1, THEN mp,
            OF conjI[OF create_ok_sample conjI[OF nf bad]]])
  have t4: "fst (main_csv ((sample_env [])\<lparr>accepted := (\<lambda>name cur data. 0)\<rparr>) cached_world
            [[CString ''a''], [CString ''b'']]) = Inr ()"
    by (rule csv_failure_leaves_prefix[THEN conjunct2, THEN conjunct2, THEN conjunct2, THEN mp,
            OF conjI[OF c1 conjI[OF nf2 good]]])
  from t3 takes_all_sample[of "[]"]
  have t3': "(\<exists>m. fst (main_csv (sample_env []) cached_world [[CString ''a''], [CNumber 1]])
                  = Inl (Panic m))
        \<and> (\<exists>c. files (snd (main_csv (sample_env []) cached_world [[CString ''a''], [CNumber 1]]))
                  out_csv = Some c
               \<and> c = csv_output [[CString ''a''], [CNumber 1]])"
    by blast
  from t1 write_fails_example t2 t3' out t4 empty show ?thesis
    by (intro conjI) (rule TrueI | assumption | erule conjunct1 | erule conjunct2)+
qed

text \<open>
  Claim C8, as the specification states it: for every response of string cells, reading
  the written file back gives the original rows. This fails for a row without cells (a
  blank row of the sheet between two others): it is written as an empty line, the same
  bytes as a row with one empty cell, and it is read back as that. A reader that skips
  empty lines would lose the row instead.
\<close>

theorem empty_row_counterexample:
  "files (snd (main_csv (sample_env []) cached_world [[CString ''a''], [], [CString ''b'']])) out_csv
     = Some (''a'' @ [LF] @ [LF] @ ''b'' @ [LF])
   \<and> files (snd (main_csv (sample_env []) cached_world
                 [[CString ''a''], [CString []], [CString ''b'']])) out_csv
     = Some (''a'' @ [LF] @ [LF] @ ''b'' @ [LF])
   \<and> csv_read (''a'' @ [LF] @ [LF] @ ''b'' @ [LF]) = Some [[''a''], [[]], [''b'']]
   \<and> csv_read (''a'' @ [LF] @ [LF] @ ''b'' @ [LF]) \<noteq> Some [[''a''], [], [''b'']]"
proof -
  have "files (snd (main_csv (sample_env []) cached_world
                      (map (map CString) [[''a''], [], [''b'']]))) out_csv
          = Some (concat (map csv_record [[''a''], [], [''b'']]))"
    by (rule main_csv_strings(2)[OF create_ok_sample takes_all_sample])
  moreover
  have "files (snd (main_csv (sample_env []) cached_world
                      (map (map CString) [[''a''], [[]], [''b'']]))) out_csv
          = Some (concat (map csv_record [[''a''], [[]], [''b'']]))"
    by (rule main_csv_strings(2)[OF create_ok_sample takes_all_sample])
  moreover
  have "csv_record [''b''] = ''b'' @ [LF]"
    by (simp add: csv_record_def csv_field_def fieldNeedsQuotes_def UseCRLF_def
        DecodeRuneInString_def unicode_IsSpace_def)
  ultimately show ?thesis
    by (simp add: csv_record_plain_examples csv_read_def)
qed

text \<open>
  Claim C8, amended. For every response of string cells in which every row has at least
  one cell, when the output file can be created and the file system takes the bytes
  written, the output file holds the records of the rows, and reading it back as CSV
  gives exactly the original rows, every cell unchanged; cells with commas, double quotes
  or line breaks are written in quotes with the quotes doubled.
\<close>

theorem csv_round_trip:
  assumes "create_ok env out_csv" and "takes_all env" and "\<forall>r \<in> set srows. r \<noteq> []"
  shows "files (snd (main_csv env w (map (map CString) srows))) out_csv
           = Some (concat (map csv_record srows))
       \<and> csv_read (concat (map csv_record srows)) = Some srows
       \<and> (Comma \<in> set f \<or> DQ \<in> set f \<longrightarrow>
            csv_field f = [DQ] @ concat (map (\<lambda>c. if c = DQ then [DQ, DQ] else [c]) f) @ [DQ])"
  using main_csv_strings(2)[OF assms(1,2), of w srows] csv_parse_records[OF assms(3), of "[]"]
    csv_field_quotes[of f]
  by (simp add: csv_read_def)

theorem csv_round_trip_witness:
  "files (snd (main_csv (sample_env []) cached_world
               (map (map CString) [[''a,b'', [DQ, CHR ''x'', DQ]], [[], ''line'' @ [LF] @ ''break'']])))
        out_csv
     = Some (concat (map csv_record [[''a,b'', [DQ, CHR ''x'', DQ]], [[], ''line'' @ [LF] @ ''break'']]))
   \<and> csv_read (concat (map csv_record [[''a,b'', [DQ, CHR ''x'', DQ]], [[], ''line'' @ [LF] @ ''break'']]))
     = Some [[''a,b'', [DQ, CHR ''x'', DQ]], [[], ''line'' @ [LF] @ ''break'']]
   \<and> csv_field ''a,b'' = [DQ] @ ''a,b'' @ [DQ]"
proof -
  have h: "\<forall>r \<in> set [[''a,b'', [DQ, CHR ''x'', DQ]], [[], ''line'' @ [LF] @ ''break'']]. r \<noteq> []"
    by simp
  from csv_round_trip[OF create_ok_sample takes_all_sample h, of "[]" cached_world "''a,b''"]
  show ?thesis by simp
qed

section \<open>A response without rows\<close>

text \<open>
  Claim C10, as the specification states it: every run in which the API call returns no
  rows prints the notice, creates the output file and exits successfully. This fails
  when the output file cannot be created: the run below prints the notice after the API
  call and then ends with the fatal error of \<open>checkError\<close>, and there is no output file.
\<close>

theorem zero_rows_create_fails_counterexample:
  "Values_Get ((sample_env [])\<lparr>create_ok := (\<lambda>name. False)\<rparr>)
       (Client sample_config (Some cached_token)) spreadsheetId readRange = Some []
   \<and> fst (main ((sample_env [])\<lparr>create_ok := (\<lambda>name. False)\<rparr>) cached_world)
       = Inl (Fatal ''Cannot create file'')
   \<and> trace (snd (main ((sample_env [])\<lparr>create_ok := (\<lambda>name. False)\<rparr>) cached_world))
       = [MkdirAll ''/home/u/.credentials'', LogPrintf ''tokenFromFile() file'',
          LogToken cached_token, ValuesGetCall spreadsheetId readRange, LogPrintf ''resp'',
          Print ''No data found.'', LogFatal ''Cannot create file'']
   \<and> files (snd (main ((sample_env [])\<lparr>create_ok := (\<lambda>name. False)\<rparr>) cached_world)) out_csv
       = None"
  by (simp add: main_def sample_env_def cached_world_def os_Open_def
      getClient_def tokenCacheFile_def filepath_Join_def url_QueryEscape_def escape_byte_def
      unreserved_def tokenFromFile_def emit_def sample_Decode_def sample_cache_def main_csv_def
      main_print_def os_Create_def checkError_def log_Fatal_def)

text \<open>
  Claim C10, amended. In every run in which the API call succeeds and returns no rows,
  the program prints \<^verbatim>\<open>No data found.\<close> and goes on to the CSV step. If the output file
  can be created, it is created or truncated and left with zero bytes, no record is
  written, nothing more is printed, and the run exits successfully; if it cannot be
  created, the run ends with the fatal error \<^verbatim>\<open>Cannot create file\<close> and leaves the files
  as they were.
\<close>

theorem zero_rows_run:
  assumes "os_Open env w ''client_secret.json'' = Inr b"
    and "ConfigFromJSON env b ''https://www.googleapis.com/auth/spreadsheets.readonly'' = Some config"
    and "getClient env w config = (Inr client, w1)"
    and "sheets_New env client"
    and "Values_Get env client spreadsheetId readRange = Some []"
  shows "Print ''No data found.'' \<in> set (trace (snd (main env w)))
       \<and> (create_ok env out_csv \<longrightarrow>
             fst (main env w) = Inr ()
           \<and> files (snd (main env w)) = (files w1)(out_csv \<mapsto> [])
           \<and> trace (snd (main env w))
               = trace w1 @ [ValuesGetCall spreadsheetId readRange, LogPrintf ''resp'',
                             Print ''No data found.''])
       \<and> (\<not> create_ok env out_csv \<longrightarrow>
             fst (main env w) = Inl (Fatal ''Cannot create file'')
           \<and> files (snd (main env w)) = files w1
           \<and> trace (snd (main env w))
               = trace w1 @ [ValuesGetCall spreadsheetId readRange, LogPrintf ''resp'',
                             Print ''No data found.'', LogFatal ''Cannot create file''])"
  using assms
  by (cases "create_ok env out_csv")
     (simp_all add: main_def main_print_def main_csv_def os_Create_def checkError_def
        log_Fatal_def emit_def csv_NewWriter_def bufio_Flush_def Let_def)

theorem zero_rows_run_witness:
  "Print ''No data found.'' \<in> set (trace (snd (main (sample_env []) cached_world)))
   \<and> fst (main (sample_env []) cached_world) = Inr ()
   \<and> files (snd (main (sample_env []) cached_world)) out_csv = Some []"
proof -
  have h1: "os_Open (sample_env []) cached_world ''client_secret.json'' = Inr ''{}''"
    by (simp add: os_Open_def cached_world_def sample_env_def sample_cache_def)
  have h2: "ConfigFromJSON (sample_env []) ''{}''
              ''https://www.googleapis.com/auth/spreadsheets.readonly'' = Some sample_config"
    by (simp add: sample_env_def)
  have h3: "getClient (sample_env []) cached_world sample_config
              = (Inr (Client sample_config (Some cached_token)),
                 snd (getClient (sample_env []) cached_world sample_config))"
    by (simp add: sample_env_def cached_world_def os_Open_def
      getClient_def tokenCacheFile_def filepath_Join_def url_QueryEscape_def escape_byte_def
      unreserved_def tokenFromFile_def emit_def sample_Decode_def sample_cache_def)
  have h4: "sheets_New (sample_env []) (Client sample_config (Some cached_token))"
    by (simp add: sample_env_def)
  have h5: "Values_Get (sample_env []) (Client sample_config (Some cached_token))
              spreadsheetId readRange = Some []"
    by (simp add: sample_env_def)
  from zero_rows_run[OF h1 h2 h3 h4 h5] create_ok_sample[of "[]" out_csv]
  show ?thesis by simp
qed

section \<open>Saving a fresh token\<close>

text \<open>
  Claim C2, as the specification states it: every run in which the cache cannot be loaded
  performs the interactive flow and then leaves a cache file that loads to the obtained
  token. This fails when the cache file cannot be opened for writing: in the run below
  the cache is absent, the code is read and exchanged for a token, and \<open>saveToken\<close> ends
  the run with its fatal error; the cache file is still absent and loading it fails.
\<close>

theorem token_not_saved_counterexample:
  "snd (fst (tokenFromFile ((sample_env [])\<lparr>create_ok := (\<lambda>name. False)\<rparr>) fresh_world
               sample_cache)) = Some ErrNotExist
   \<and> fst (getClient ((sample_env [])\<lparr>create_ok := (\<lambda>name. False)\<rparr>) fresh_world sample_config)
       = Inl (Fatal ''Unable to cache oauth token'')
   \<and> Scan \<in> set (trace (snd (getClient ((sample_env [])\<lparr>create_ok := (\<lambda>name. False)\<rparr>)
                                fresh_world sample_config)))
   \<and> ExchangeCall sample_config ''4/code''
       \<in> set (trace (snd (getClient ((sample_env [])\<lparr>create_ok := (\<lambda>name. False)\<rparr>)
                             fresh_world sample_config)))
   \<and> files (snd (getClient ((sample_env [])\<lparr>create_ok := (\<lambda>name. False)\<rparr>)
                   fresh_world sample_config)) sample_cache = None
   \<and> snd (fst (tokenFromFile ((sample_env [])\<lparr>create_ok := (\<lambda>name. False)\<rparr>)
                 (snd (getClient ((sample_env [])\<lparr>create_ok := (\<lambda>name. False)\<rparr>)
                         fresh_world sample_config))
                 sample_cache)) = Some ErrNotExist"
  by (simp add: sample_env_def fresh_world_def os_Open_def
      getClient_def tokenCacheFile_def filepath_Join_def url_QueryEscape_def escape_byte_def
      unreserved_def tokenFromFile_def emit_def sample_cache_def getTokenFromWeb_def
      saveToken_def os_Create_def log_Fatal_def)

text \<open>
  Claim C2, amended. In every run in which loading the cache file fails, \<open>getClient\<close>
  starts the interactive flow (it reads the console). If no code can be read, or the
  exchange rejects the code, or the token is obtained but the cache file cannot be opened
  for writing, the run ends with the fatal error of that step and every file is left as
  it was: no token is cached. If the flow obtains a token (a code is read and the exchange
  accepts it), the cache file can be opened for writing and the file system takes the
  encoded token, then the client is built from that token and the cache file holds
  exactly the encoding of the token; a later load of the file, when it can be opened and
  the decoder reads back what the encoder wrote, succeeds and yields that token.
\<close>

theorem load_failure_runs_flow_and_saves:
  assumes "user_Current env = Some home"
    and "snd (fst (tokenFromFile env w (cache_file home))) \<noteq> None"
  shows "Scan \<in> set (trace (snd (getClient env w config)))
       \<and> (stdin w = [] \<longrightarrow>
             fst (getClient env w config) = Inl (Fatal ''Unable to read authorization code'')
           \<and> files (snd (getClient env w config)) = files w)
       \<and> (stdin w = code # rest \<and> Exchange env config code = None \<longrightarrow>
             fst (getClient env w config) = Inl (Fatal ''Unable to retrieve token from web'')
           \<and> ExchangeCall config code \<in> set (trace (snd (getClient env w config)))
           \<and> files (snd (getClient env w config)) = files w)
       \<and> (stdin w = code # rest \<and> Exchange env config code = Some tok
            \<and> \<not> create_ok env (cache_file home) \<longrightarrow>
             fst (getClient env w config) = Inl (Fatal ''Unable to cache oauth token'')
           \<and> ExchangeCall config code \<in> set (trace (snd (getClient env w config)))
           \<and> files (snd (getClient env w config)) = files w)
       \<and> (stdin w = code # rest \<and> Exchange env config code = Some tok
            \<and> create_ok env (cache_file home)
            \<and> length (token_Encode env tok)
                 \<le> accepted env (cache_file home) [] (token_Encode env tok)
          \<longrightarrow> fst (getClient env w config) = Inr (Client config (Some tok))
            \<and> ExchangeCall config code \<in> set (trace (snd (getClient env w config)))
            \<and> files (snd (getClient env w config))
                = (files w)(cache_file home \<mapsto> token_Encode env tok)
            \<and> (open_ok env (cache_file home)
                 \<and> token_Decode env (token_Encode env tok) = (tok, None)
               \<longrightarrow> fst (tokenFromFile env (snd (getClient env w config)) (cache_file home))
                     = (Some tok, None)))"
proof -
  let ?w1 = "emit (MkdirAll (filepath_Join home ''.credentials'')) w"
  obtain t0 e0 w2 where tf: "tokenFromFile env ?w1 (cache_file home) = ((t0, e0), w2)"
    by (metis surj_pair)
  have "fst (tokenFromFile env ?w1 (cache_file home)) = fst (tokenFromFile env w (cache_file home))"
    by (rule tokenFromFile_files) (simp add: emit_def)
  with tf have "snd (fst (tokenFromFile env w (cache_file home))) = e0"
    by (metis fst_conv snd_conv)
  with assms(2) obtain err where e0: "e0 = Some err" by auto
  from tokenFromFile_frame[of env ?w1 "cache_file home"] tf
  have w2: "files w2 = files w" "stdin w2 = stdin w"
    by (simp_all add: emit_def)
  have g: "getClient env w config =
             (case getTokenFromWeb env w2 config of
                (Inl a, w3) \<Rightarrow> (Inl a, w3)
              | (Inr tok', w3) \<Rightarrow>
                  (case saveToken env w3 (cache_file home) tok' of
                     (Inl a, w4) \<Rightarrow> (Inl a, w4)
                   | (Inr u, w4) \<Rightarrow> (Inr (Client config (Some tok')), w4)))"
    by (simp add: getClient_def tokenCacheFile_home[OF assms(1)] tf e0)
  have scan: "Scan \<in> set (trace (snd (getClient env w config)))"
    unfolding g
    by (simp add: getTokenFromWeb_def saveToken_def os_Create_def log_Fatal_def emit_def
        file_Write_def Let_def split: list.splits option.splits)
  have no_code: "fst (getClient env w config) = Inl (Fatal ''Unable to read authorization code'')
           \<and> files (snd (getClient env w config)) = files w"
    if "stdin w = []"
    using that w2 unfolding g
    by (simp add: getTokenFromWeb_def log_Fatal_def emit_def Let_def)
  have rejected: "fst (getClient env w config) = Inl (Fatal ''Unable to retrieve token from web'')
           \<and> ExchangeCall config code \<in> set (trace (snd (getClient env w config)))
           \<and> files (snd (getClient env w config)) = files w"
    if "stdin w = code # rest" "Exchange env config code = None"
    using that w2 unfolding g
    by (simp add: getTokenFromWeb_def log_Fatal_def emit_def Let_def)
  have unsaved: "fst (getClient env w config) = Inl (Fatal ''Unable to cache oauth token'')
           \<and> ExchangeCall config code \<in> set (trace (snd (getClient env w config)))
           \<and> files (snd (getClient env w config)) = files w"
    if "stdin w = code # rest" "Exchange env config code = Some tok"
      "\<not> create_ok env (cache_file home)"
    using that w2 unfolding g
    by (simp add: getTokenFromWeb_def saveToken_def os_Create_def log_Fatal_def emit_def Let_def)
  have saved: "fst (getClient env w config) = Inr (Client config (Some tok))
             \<and> ExchangeCall config code \<in> set (trace (snd (getClient env w config)))
             \<and> files (snd (getClient env w config))
                 = (files w)(cache_file home \<mapsto> token_Encode env tok)
             \<and> (open_ok env (cache_file home)
                 \<and> token_Decode env (token_Encode env tok) = (tok, None)
               \<longrightarrow> fst (tokenFromFile env (snd (getClient env w config)) (cache_file home))
                     = (Some tok, None))"
    if "stdin w = code # rest" "Exchange env config code = Some tok"
      "create_ok env (cache_file home)"
      "length (token_Encode env tok) \<le> accepted env (cache_file home) [] (token_Encode env tok)"
    using that w2 unfolding g
    by (simp add: getTokenFromWeb_def saveToken_def os_Create_def emit_def file_Write_def
        Let_def min_absorb2 tokenFromFile_def os_Open_def)
  from scan no_code rejected unsaved saved show ?thesis by blast
qed

theorem load_failure_runs_flow_and_saves_witness:
  "snd (fst (tokenFromFile (sample_env []) fresh_world sample_cache)) \<noteq> None
   \<and> Scan \<in> set (trace (snd (getClient (sample_env []) fresh_world sample_config)))
   \<and> fst (getClient (sample_env []) fresh_world sample_config)
       = Inr (Client sample_config (Some web_token))
   \<and> files (snd (getClient (sample_env []) fresh_world sample_config)) sample_cache
       = Some (''ya29.web'' @ [LF])
   \<and> fst (tokenFromFile (sample_env []) (snd (getClient (sample_env []) fresh_world sample_config))
            sample_cache) = (Some web_token, None)
   \<and> fst (getClient (sample_env []) (fresh_world\<lparr>stdin := []\<rparr>) sample_config)
       = Inl (Fatal ''Unable to read authorization code'')
   \<and> files (snd (getClient (sample_env []) (fresh_world\<lparr>stdin := []\<rparr>) sample_config))
       = files (fresh_world\<lparr>stdin := []\<rparr>)
   \<and> fst (getClient (sample_env []) (fresh_world\<lparr>stdin := [''wrong'']\<rparr>) sample_config)
       = Inl (Fatal ''Unable to retrieve token from web'')
   \<and> fst (getClient ((sample_env [])\<lparr>create_ok := (\<lambda>name. False)\<rparr>) fresh_world sample_config)
       = Inl (Fatal ''Unable to cache oauth token'')"
proof -
  have h1: "user_Current (sample_env []) = Some ''/home/u''"
    by (simp add: sample_env_def)
  have h1': "user_Current ((sample_env [])\<lparr>create_ok := (\<lambda>name. False)\<rparr>) = Some ''/home/u''"
    by (simp add: sample_env_def)
  have h2: "snd (fst (tokenFromFile (sample_env []) fresh_world (cache_file ''/home/u''))) \<noteq> None"
    by (simp add: cache_file_sample tokenFromFile_def os_Open_def fresh_world_def emit_def
        sample_cache_def)
  have h2a: "snd (fst (tokenFromFile (sample_env []) (fresh_world\<lparr>stdin := []\<rparr>)
                         (cache_file ''/home/u''))) \<noteq> None"
    by (simp add: cache_file_sample tokenFromFile_def os_Open_def fresh_world_def emit_def
        sample_cache_def)
  have h2b: "snd (fst (tokenFromFile (sample_env []) (fresh_world\<lparr>stdin := [''wrong'']\<rparr>)
                         (cache_file ''/home/u''))) \<noteq> None"
    by (simp add: cache_file_sample tokenFromFile_def os_Open_def fresh_world_def emit_def
        sample_cache_def)
  have h2c: "snd (fst (tokenFromFile ((sample_env [])\<lparr>create_ok := (\<lambda>name. False)\<rparr>) fresh_world
                         (cache_file ''/home/u''))) \<noteq> None"
    by (simp add: cache_file_sample tokenFromFile_def os_Open_def fresh_world_def emit_def
        sample_cache_def)
  have h3: "stdin fresh_world = ''4/code'' # []
          \<and> Exchange (sample_env []) sample_config ''4/code'' = Some web_token
          \<and> create_ok (sample_env []) (cache_file ''/home/u'')
          \<and> length (token_Encode (sample_env []) web_token)
               \<le> accepted (sample_env []) (cache_file ''/home/u'') []
                    (token_Encode (sample_env []) web_token)"
    by (simp add: fresh_world_def sample_env_def)
  have h4: "open_ok (sample_env []) (cache_file ''/home/u'')
          \<and> token_Decode (sample_env []) (token_Encode (sample_env []) web_token) = (web_token, None)"
    by (simp add: sample_env_def sample_Decode_def sample_Encode_def web_token_def)
  have e: "token_Encode (sample_env []) web_token = ''ya29.web'' @ [LF]"
    by (simp add: sample_env_def sample_Encode_def web_token_def)
  have a: "stdin (fresh_world\<lparr>stdin := []\<rparr>) = []"
    by simp
  have b: "stdin (fresh_world\<lparr>stdin := [''wrong'']\<rparr>) = ''wrong'' # []
         \<and> Exchange (sample_env []) sample_config ''wrong'' = None"
    by (simp add: sample_env_def)
  have c: "stdin fresh_world = ''4/code'' # []
         \<and> Exchange ((sample_env [])\<lparr>create_ok := (\<lambda>name. False)\<rparr>) sample_config ''4/code''
             = Some web_token
         \<and> \<not> create_ok ((sample_env [])\<lparr>create_ok := (\<lambda>name. False)\<rparr>) (cache_file ''/home/u'')"
    by (simp add: fresh_world_def sample_env_def)
  have ok: "Scan \<in> set (trace (snd (getClient (sample_env []) fresh_world sample_config)))
     \<and> fst (getClient (sample_env []) fresh_world sample_config)
         = Inr (Client sample_config (Some web_token))
     \<and> files (snd (getClient (sample_env []) fresh_world sample_config)) sample_cache
         = Some (''ya29.web'' @ [LF])
     \<and> fst (tokenFromFile (sample_env []) (snd (getClient (sample_env []) fresh_world sample_config))
              sample_cache) = (Some web_token, None)"
    using load_failure_runs_flow_and_saves
            [OF h1 h2, where config = sample_config and code = "''4/code''" and rest = "[]"
               and tok = web_token]
          h3 h4
    by (simp add: cache_file_sample e)
  have t_a: "fst (getClient (sample_env []) (fresh_world\<lparr>stdin := []\<rparr>) sample_config)
               = Inl (Fatal ''Unable to read authorization code'')
           \<and> files (snd (getClient (sample_env []) (fresh_world\<lparr>stdin := []\<rparr>) sample_config))
               = files (fresh_world\<lparr>stdin := []\<rparr>)"
    by (rule load_failure_runs_flow_and_saves
               [OF h1 h2a, THEN conjunct2, THEN conjunct1, THEN mp, OF a])
  have t_b: "fst (getClient (sample_env []) (fresh_world\<lparr>stdin := [''wrong'']\<rparr>) sample_config)
               = Inl (Fatal ''Unable to retrieve token from web'')"
    using load_failure_runs_flow_and_saves
            [OF h1 h2b, THEN conjunct2, THEN conjunct2, THEN conjunct1, THEN mp, OF b]
    by (rule conjunct1)
  have t_c: "fst (getClient ((sample_env [])\<lparr>create_ok := (\<lambda>name. False)\<rparr>) fresh_world
                    sample_config) = Inl (Fatal ''Unable to cache oauth token'')"
    using load_failure_runs_flow_and_saves
            [OF h1' h2c, THEN conjunct2, THEN conjunct2, THEN conjunct2, THEN conjunct1, THEN mp, OF c]
    by (rule conjunct1)
  from h2 have h2s: "snd (fst (tokenFromFile (sample_env []) fresh_world sample_cache)) \<noteq> None"
    by (simp add: cache_file_sample)
  from h2s ok t_a t_b t_c show ?thesis by simp
qed

end
